theory Spec2Isabelle
  imports Complex_Main
begin

text \<open>
  A model of \<open>line_notify.py\<close>: the comparison of the current pressure with the
  pressure of 30 minutes before (\<open>analize_pressure_drop\<close>), the night rule
  (\<open>is_night_hour\<close>), the cooldown kept in a file (\<open>should_notify\<close>) and the
  delivery (\<open>send_message\<close>), with the parts of Python's \<open>str\<close> and \<open>datetime\<close>
  that they call.
\<close>

section \<open>Text: whitespace, decimal digits\<close>

text \<open>
  Strings are lists of 8-bit characters. \<open>isspace\<close> is Python's \<open>str.isspace\<close> on the
  ASCII range (tab, line feed, vertical tab, form feed, carriage return, the four
  separators 0x1C-0x1F and the space); \<open>strip\<close> is \<open>str.strip()\<close> without argument,
  which removes such characters from both ends. Python strips the whitespace outside
  ASCII as well (U+0085, U+00A0, U+3000 and others); these are not modelled, and what is
  said of a record that does not parse is said over any \<open>strip\<close> for that reason.
\<close>

definition isspace :: "char \<Rightarrow> bool" where
  "isspace c = (let n = (of_char c :: nat) in (9 \<le> n \<and> n \<le> 13) \<or> (28 \<le> n \<and> n \<le> 32))"

definition strip :: "string \<Rightarrow> string" where
  "strip s = rev (dropWhile isspace (rev (dropWhile isspace s)))"

definition digit_char :: "nat \<Rightarrow> char" where
  "digit_char n = char_of (48 + n)"

definition is_digit :: "char \<Rightarrow> bool" where
  "is_digit c = (48 \<le> (of_char c :: nat) \<and> (of_char c :: nat) \<le> 57)"

definition digit_val :: "char \<Rightarrow> nat" where
  "digit_val c = of_char c - 48"

text \<open>
  \<open>zero_padded k n\<close> is the format \<open>%0kd\<close> for a number of at most \<open>k\<close> digits, which
  is all that a valid date or time field can be; \<open>decimal n\<close> is \<open>%d\<close>.
\<close>

fun zero_padded :: "nat \<Rightarrow> nat \<Rightarrow> string" where
  "zero_padded 0 n = []"
| "zero_padded (Suc k) n = zero_padded k (n div 10) @ [digit_char (n mod 10)]"

fun decimal :: "nat \<Rightarrow> string" where
  "decimal n = (if n < 10 then [digit_char n] else decimal (n div 10) @ [digit_char (n mod 10)])"

fun int_of_digits :: "string \<Rightarrow> nat \<Rightarrow> nat option" where
  "int_of_digits [] acc = Some acc"
| "int_of_digits (c # cs) acc =
     (if is_digit c then int_of_digits cs (10 * acc + digit_val c) else None)"

section \<open>Exceptions\<close>

text \<open>
  The exceptions that the modelled code can meet. \<open>should_notify\<close> catches
  \<open>FileNotFoundError\<close> and \<open>ValueError\<close> only; every other one leaves the function.
  \<open>PermissionError\<close> stands for any \<open>OSError\<close> of \<open>open\<close> other than a missing file,
  \<open>RequestException\<close> for an exception of \<open>requests.post\<close>.
\<close>

datatype exn = FileNotFoundError | PermissionError | ValueError | TypeError | RequestException

section \<open>The datetime library\<close>

text \<open>
  A \<open>datetime\<close> object with the fields of Python's class. \<open>tzinfo\<close> is the UTC offset
  of a fixed-offset \<open>timezone\<close> in microseconds, \<open>None\<close> for a naive object. Python's
  constructor admits only the objects that satisfy \<open>valid_datetime\<close>.
\<close>

record datetime =
  year :: nat
  month :: nat
  day :: nat
  hour :: nat
  minute :: nat
  second :: nat
  microsecond :: nat
  tzinfo :: "int option"

definition is_leap :: "nat \<Rightarrow> bool" where
  "is_leap y = (y mod 4 = 0 \<and> (y mod 100 \<noteq> 0 \<or> y mod 400 = 0))"

definition days_before_year :: "nat \<Rightarrow> nat" where
  "days_before_year y = (let p = y - 1 in p * 365 + p div 4 - p div 100 + p div 400)"

definition days_in_month :: "nat \<Rightarrow> nat \<Rightarrow> nat" where
  "days_in_month y m =
     (if m = 2 \<and> is_leap y then 29
      else [0, 31, 28, 31, 30, 31, 30, 31, 31, 30, 31, 30, 31] ! m)"

definition days_before_month :: "nat \<Rightarrow> nat \<Rightarrow> nat" where
  "days_before_month y m =
     [0, 0, 31, 59, 90, 120, 151, 181, 212, 243, 273, 304, 334] ! m
       + (if m > 2 \<and> is_leap y then 1 else 0)"

definition toordinal :: "datetime \<Rightarrow> nat" where
  "toordinal d = days_before_year (year d) + days_before_month (year d) (month d) + day d"

definition valid_offset :: "int \<Rightarrow> bool" where
  "valid_offset off = (- 86400000000 < off \<and> off < 86400000000)"

definition valid_datetime :: "datetime \<Rightarrow> bool" where
  "valid_datetime d =
     (1 \<le> year d \<and> year d \<le> 9999 \<and> 1 \<le> month d \<and> month d \<le> 12 \<and>
      1 \<le> day d \<and> day d \<le> days_in_month (year d) (month d) \<and>
      hour d < 24 \<and> minute d < 60 \<and> second d < 60 \<and> microsecond d < 1000000 \<and>
      (case tzinfo d of None \<Rightarrow> True | Some off \<Rightarrow> valid_offset off))"

subsection \<open>isoformat\<close>

text \<open>
  \<open>datetime.isoformat()\<close> with its defaults: \<open>YYYY-MM-DDTHH:MM:SS\<close>, then \<open>.ffffff\<close>
  when the microsecond is not 0, then the offset \<open>+HH:MM\<close> of an aware object, with
  \<open>:SS\<close> and \<open>.ffffff\<close> when the offset is not a whole number of minutes or seconds.
\<close>

definition format_time :: "nat \<Rightarrow> nat \<Rightarrow> nat \<Rightarrow> nat \<Rightarrow> string" where
  "format_time hh mm ss us =
     zero_padded 2 hh @ '':'' @ zero_padded 2 mm @ '':'' @ zero_padded 2 ss @
     (if us \<noteq> 0 then ''.'' @ zero_padded 6 us else [])"

definition offset_body :: "nat \<Rightarrow> string" where
  "offset_body a =
     (let hh = a div 3600000000; r = a mod 3600000000; mm = r div 60000000;
          ss = r mod 60000000
      in zero_padded 2 hh @ '':'' @ zero_padded 2 mm @
         (if ss \<noteq> 0
          then '':'' @ zero_padded 2 (ss div 1000000) @
               (if ss mod 1000000 \<noteq> 0 then ''.'' @ zero_padded 6 (ss mod 1000000) else [])
          else []))"

definition format_offset :: "int option \<Rightarrow> string" where
  "format_offset tz =
     (case tz of
        None \<Rightarrow> []
      | Some off \<Rightarrow> (if off < 0 then CHR ''-'' else CHR ''+'') # offset_body (nat \<bar>off\<bar>))"

definition isoformat :: "datetime \<Rightarrow> string" where
  "isoformat d =
     zero_padded 4 (year d) @ ''-'' @ zero_padded 2 (month d) @ ''-'' @
     zero_padded 2 (day d) @ ''T'' @
     format_time (hour d) (minute d) (second d) (microsecond d) @
     format_offset (tzinfo d)"

subsection \<open>fromisoformat\<close>

text \<open>
  \<open>datetime.fromisoformat\<close> for the grammar that Python documents for it (3.7 to 3.10),
  \<open>YYYY-MM-DD[*HH[:MM[:SS[.fff[fff]]]][+HH:MM[:SS[.ffffff]]]]\<close> where \<open>*\<close> is any one
  character, laid out as the library's \<open>_parse_isoformat_date\<close>, \<open>_parse_hh_mm_ss_ff\<close>
  and \<open>_parse_isoformat_time\<close>. A string outside the grammar, or one whose fields the
  constructor refuses, raises \<open>ValueError\<close>. The date alone is midnight of that day,
  naive; the date and a separator with nothing after it raises \<open>ValueError\<close>, as
  CPython does. From 3.11 on Python parses more texts (\<open>Z\<close>, offsets without colon,
  other lengths of the fraction); what is said of a record that does not parse is said
  over any \<open>fromisoformat\<close> for that reason.
\<close>

definition parse_isoformat_date :: "string \<Rightarrow> (nat \<times> nat \<times> nat) option" where
  "parse_isoformat_date dtstr =
     (if length dtstr \<noteq> 10 then None
      else if dtstr ! 4 \<noteq> CHR ''-'' \<or> dtstr ! 7 \<noteq> CHR ''-'' then None
      else (case (int_of_digits (take 4 dtstr) 0, int_of_digits (take 2 (drop 5 dtstr)) 0,
                  int_of_digits (drop 8 dtstr) 0) of
              (Some y, Some m, Some d) \<Rightarrow> Some (y, m, d)
            | _ \<Rightarrow> None))"

fun parse_hh_mm_ss :: "nat \<Rightarrow> string \<Rightarrow> (nat list \<times> string) option" where
  "parse_hh_mm_ss i [a, b] =
     (case int_of_digits [a, b] 0 of None \<Rightarrow> None | Some v \<Rightarrow> Some ([v], []))"
| "parse_hh_mm_ss i (a # b # c # rest) =
     (case int_of_digits [a, b] 0 of
        None \<Rightarrow> None
      | Some v \<Rightarrow>
          (if i \<ge> 2 then Some ([v], c # rest)
           else if c \<noteq> CHR '':'' then None
           else (case parse_hh_mm_ss (Suc i) rest of
                   None \<Rightarrow> None
                 | Some (vs, r) \<Rightarrow> Some (v # vs, r))))"
| "parse_hh_mm_ss i _ = None"

definition parse_fraction :: "string \<Rightarrow> nat option" where
  "parse_fraction rest =
     (case rest of
        [] \<Rightarrow> Some 0
      | c # digits \<Rightarrow>
          (if c \<noteq> CHR ''.'' then None
           else if length digits = 3 then map_option (\<lambda>n. n * 1000) (int_of_digits digits 0)
           else if length digits = 6 then int_of_digits digits 0
           else None))"

definition parse_hh_mm_ss_ff :: "string \<Rightarrow> (nat \<times> nat \<times> nat \<times> nat) option" where
  "parse_hh_mm_ss_ff tstr =
     (case parse_hh_mm_ss 0 tstr of
        None \<Rightarrow> None
      | Some (vs, rest) \<Rightarrow>
          (case parse_fraction rest of
             None \<Rightarrow> None
           | Some us \<Rightarrow>
               (let cs = vs @ [0, 0] in Some (cs ! 0, cs ! 1, cs ! 2, us))))"

fun split_first :: "char \<Rightarrow> string \<Rightarrow> (string \<times> string) option" where
  "split_first c [] = None"
| "split_first c (x # xs) =
     (if x = c then Some ([], xs)
      else (case split_first c xs of None \<Rightarrow> None | Some (a, b) \<Rightarrow> Some (x # a, b)))"

definition parse_offset :: "int \<Rightarrow> string \<Rightarrow> int option" where
  "parse_offset sign tzstr =
     (if length tzstr \<notin> {5, 8, 15} then None
      else (case parse_hh_mm_ss_ff tzstr of
              None \<Rightarrow> None
            | Some (hh, mm, ss, us) \<Rightarrow>
                (let td = sign * (int hh * 3600000000 + int mm * 60000000
                                  + int ss * 1000000 + int us)
                 in if valid_offset td then Some td else None)))"

definition parse_isoformat_time ::
  "string \<Rightarrow> ((nat \<times> nat \<times> nat \<times> nat) \<times> int option) option" where
  "parse_isoformat_time tstr =
     (if length tstr < 2 then None
      else (case split_first CHR ''-'' tstr of
              Some (timestr, tzstr) \<Rightarrow>
                (case (parse_hh_mm_ss_ff timestr, parse_offset (- 1) tzstr) of
                   (Some t, Some off) \<Rightarrow> Some (t, Some off)
                 | _ \<Rightarrow> None)
            | None \<Rightarrow>
                (case split_first CHR ''+'' tstr of
                   Some (timestr, tzstr) \<Rightarrow>
                     (case (parse_hh_mm_ss_ff timestr, parse_offset 1 tzstr) of
                        (Some t, Some off) \<Rightarrow> Some (t, Some off)
                      | _ \<Rightarrow> None)
                 | None \<Rightarrow>
                     (case parse_hh_mm_ss_ff tstr of
                        Some t \<Rightarrow> Some (t, None)
                      | None \<Rightarrow> None))))"

definition new_datetime ::
  "nat \<Rightarrow> nat \<Rightarrow> nat \<Rightarrow> nat \<Rightarrow> nat \<Rightarrow> nat \<Rightarrow> nat \<Rightarrow> int option \<Rightarrow> exn + datetime" where
  "new_datetime y m d hh mm ss us tz =
     (let dt = \<lparr>year = y, month = m, day = d, hour = hh, minute = mm, second = ss,
                microsecond = us, tzinfo = tz\<rparr>
      in if valid_datetime dt then Inr dt else Inl ValueError)"

definition fromisoformat :: "string \<Rightarrow> exn + datetime" where
  "fromisoformat date_string =
     (let dstr = take 10 date_string; tstr = drop 11 date_string
      in case parse_isoformat_date dstr of
           None \<Rightarrow> Inl ValueError
         | Some (y, m, d) \<Rightarrow>
             (case (if length date_string \<le> 10 then Some ((0, 0, 0, 0), None)
                    else parse_isoformat_time tstr) of
                None \<Rightarrow> Inl ValueError
              | Some ((hh, mm, ss, us), tz) \<Rightarrow> new_datetime y m d hh mm ss us tz))"

subsection \<open>Subtraction and timedelta\<close>

text \<open>
  A \<open>timedelta\<close> is its number of microseconds. \<open>datetime_sub a b\<close> is \<open>a - b\<close>: the
  difference of the wall clocks, corrected by the offsets when both objects are aware;
  Python raises \<open>TypeError\<close> when exactly one of them is naive. The program builds
  \<open>timedelta(minutes=threshold)\<close> for the threshold 360 only, far from the values on
  which Python's \<open>timedelta\<close> overflows.
\<close>

definition timedelta_minutes :: "int \<Rightarrow> int" where
  "timedelta_minutes n = n * 60000000"

definition wall_clock :: "datetime \<Rightarrow> int" where
  "wall_clock d =
     int (toordinal d) * 86400000000
     + (int (second d) + int (minute d) * 60 + int (hour d) * 3600) * 1000000
     + int (microsecond d)"

definition datetime_sub :: "datetime \<Rightarrow> datetime \<Rightarrow> exn + int" where
  "datetime_sub a b =
     (let base = wall_clock a - wall_clock b
      in case (tzinfo a, tzinfo b) of
           (None, None) \<Rightarrow> Inr base
         | (Some myoff, Some otoff) \<Rightarrow> Inr (base + otoff - myoff)
         | _ \<Rightarrow> Inl TypeError)"

section \<open>The world of one run\<close>

text \<open>
  The program acts on the file \<open>last_notify.txt\<close> and on the push endpoint. The world
  holds the text of the file (\<open>None\<close> when there is no such file), whether \<open>open\<close>
  succeeds on it for reading and for writing, and the trace of what the program did: each
  opening of the file for reading, each text written to it, each push request issued.
\<close>

datatype event = Read_file | Wrote_file string | Posted string string

record world =
  LAST_NOTIFY_FILE :: "string option"
  readable :: bool
  writable :: bool
  trace :: "event list"

text \<open>
  The environment of the module: the recipients \<open>USER_IDS\<close>, the subtraction of two
  floats and the answer of the push endpoint to a request (\<open>None\<close> when
  \<open>requests.post\<close> raises instead of answering). Pressures are the real numbers that the
  floats denote; \<open>float_sub\<close> is the rounded difference that Python computes, and
  nothing is assumed about it.
\<close>

datatype response = Response int string

record env =
  USER_IDS :: "string list"
  float_sub :: "real \<Rightarrow> real \<Rightarrow> real"
  requests_post :: "string \<Rightarrow> string \<Rightarrow> response option"

definition open_read :: "world \<Rightarrow> exn + string" where
  "open_read w =
     (case LAST_NOTIFY_FILE w of
        None \<Rightarrow> Inl FileNotFoundError
      | Some s \<Rightarrow> if readable w then Inr s else Inl PermissionError)"

definition open_write :: "string \<Rightarrow> world \<Rightarrow> exn + world" where
  "open_write s w =
     (if writable w
      then Inr (w\<lparr>LAST_NOTIFY_FILE := Some s, trace := trace w @ [Wrote_file s]\<rparr>)
      else Inl PermissionError)"

section \<open>The program\<close>

subsection \<open>is_night_hour\<close>

definition is_night_hour :: "datetime \<Rightarrow> bool" where
  "is_night_hour jst_time = (0 \<le> hour jst_time \<and> hour jst_time < 6)"

subsection \<open>should_notify\<close>

text \<open>
  The first statements of the \<open>try\<close>: open the file, read and strip its text, raise
  \<open>ValueError\<close> on the empty text, parse the rest.
\<close>

definition read_last_notify_time :: "world \<Rightarrow> exn + datetime" where
  "read_last_notify_time w =
     (case open_read w of
        Inl e \<Rightarrow> Inl e
      | Inr text \<Rightarrow>
          (let last_notify_time_str = strip text
           in if last_notify_time_str = [] then Inl ValueError
              else fromisoformat last_notify_time_str))"

text \<open>
  The body of the \<open>try\<close>: \<open>Inr (Some False)\<close> when it executes \<open>return False\<close>,
  \<open>Inr None\<close> when it runs to its end, \<open>Inl e\<close> when it raises \<open>e\<close>.
\<close>

definition try_read :: "datetime \<Rightarrow> int \<Rightarrow> world \<Rightarrow> exn + bool option" where
  "try_read current_jst_time threshold w =
     (case read_last_notify_time w of
        Inl e \<Rightarrow> Inl e
      | Inr last_notify_time \<Rightarrow>
          (case datetime_sub current_jst_time last_notify_time of
             Inl e \<Rightarrow> Inl e
           | Inr elapsed \<Rightarrow>
               if elapsed < timedelta_minutes threshold then Inr (Some False)
               else Inr None))"

text \<open>
  After the \<open>try\<close>, unless it returned or raised an exception that is not caught, the
  function writes the ISO text of the current time over the file and returns \<open>True\<close>.
\<close>

definition write_and_return :: "datetime \<Rightarrow> world \<Rightarrow> (exn + bool) \<times> world" where
  "write_and_return current_jst_time w =
     (case open_write (isoformat current_jst_time) w of
        Inl e \<Rightarrow> (Inl e, w)
      | Inr w' \<Rightarrow> (Inr True, w'))"

definition should_notify :: "datetime \<Rightarrow> int \<Rightarrow> world \<Rightarrow> (exn + bool) \<times> world" where
  "should_notify current_jst_time threshold w =
     (let w1 = w\<lparr>trace := trace w @ [Read_file]\<rparr>
      in case try_read current_jst_time threshold w of
           Inr (Some b) \<Rightarrow> (Inr b, w1)
         | Inr None \<Rightarrow> write_and_return current_jst_time w1
         | Inl e \<Rightarrow>
             if e = FileNotFoundError \<or> e = ValueError
             then write_and_return current_jst_time w1
             else (Inl e, w1))"

subsection \<open>send_message\<close>

text \<open>
  One push request for each recipient that is not blank, in order; an exception of
  \<open>requests.post\<close> ends the loop and leaves the function.
\<close>

fun send_loop :: "env \<Rightarrow> string \<Rightarrow> string list \<Rightarrow> world \<Rightarrow> (exn + unit) \<times> world" where
  "send_loop e msg_text [] w = (Inr (), w)"
| "send_loop e msg_text (uid # uids) w =
     (let uid' = strip uid
      in if uid' \<noteq> []
         then (let w' = w\<lparr>trace := trace w @ [Posted uid' msg_text]\<rparr>
               in case requests_post e uid' msg_text of
                    None \<Rightarrow> (Inl RequestException, w')
                  | Some res \<Rightarrow> send_loop e msg_text uids w')
         else send_loop e msg_text uids w)"

definition send_message :: "env \<Rightarrow> string \<Rightarrow> world \<Rightarrow> (exn + unit) \<times> world" where
  "send_message e msg_text w = send_loop e msg_text (USER_IDS e) w"

subsection \<open>analize_pressure_drop\<close>

text \<open>
  The text of the notification: the fixed UTF-8 text of the source, the current pressure
  in the format \<open>.1f\<close> (one decimal, ties to even) and the unit.
\<close>

definition round_half_even :: "real \<Rightarrow> int" where
  "round_half_even x =
     (let f = \<lfloor>x\<rfloor>; d = x - of_int f
      in if d < 1 / 2 then f else if 1 / 2 < d then f + 1
         else if even f then f else f + 1)"

definition format_1f :: "real \<Rightarrow> string" where
  "format_1f x =
     (let n = nat (round_half_even (\<bar>x\<bar> * 10))
      in (if x < 0 then ''-'' else []) @ decimal (n div 10) @ ''.'' @ [digit_char (n mod 10)])"

definition drop_text :: "real \<Rightarrow> string" where
  "drop_text current_pressure =
     [CHR 0xE6, CHR 0xB0, CHR 0x97, CHR 0xE5, CHR 0x9C, CHR 0xA7, CHR 0xE3, CHR 0x81,
      CHR 0x8C, CHR 0xE6, CHR 0x80, CHR 0xA5, CHR 0xE6, CHR 0xBF, CHR 0x80, CHR 0xE3,
      CHR 0x81, CHR 0xAB, CHR 0xE4, CHR 0xB8, CHR 0x8B, CHR 0xE3, CHR 0x81, CHR 0x8C,
      CHR 0xE3, CHR 0x81, CHR 0xA3, CHR 0xE3, CHR 0x81, CHR 0xA6, CHR 0xE3, CHR 0x81,
      CHR 0x84, CHR 0xE3, CHR 0x81, CHR 0xBE, CHR 0xE3, CHR 0x81, CHR 0x99, CHR 0xF0,
      CHR 0x9F, CHR 0x91, CHR 0x87, CHR 0x0A, CHR 0xE5, CHR 0xA4, CHR 0xA9, CHR 0xE6,
      CHR 0xB0, CHR 0x97, CHR 0xE3, CHR 0x81, CHR 0xA8, CHR 0xE9, CHR 0xA0, CHR 0xAD,
      CHR 0xE7, CHR 0x97, CHR 0x9B, CHR 0xE3, CHR 0x81, CHR 0xAB, CHR 0xE6, CHR 0xB0,
      CHR 0x97, CHR 0xE3, CHR 0x82, CHR 0x92, CHR 0xE3, CHR 0x81, CHR 0xA4, CHR 0xE3,
      CHR 0x81, CHR 0x91, CHR 0xE3, CHR 0x81, CHR 0xA6, CHR 0xE3, CHR 0x81, CHR 0xAD,
      CHR 0xF0, CHR 0x9F, CHR 0x98, CHR 0x89, CHR 0x0A, CHR 0xE6, CHR 0xB0, CHR 0x97,
      CHR 0xE5, CHR 0x9C, CHR 0xA7, CHR 0x3A]
     @ format_1f current_pressure @ ''hPa''"

text \<open>
  The function prints which branch it took and returns nothing of use; the model returns
  the branch as a decision. \<open>Suppressed Missing_data\<close> is either of the two early
  returns, \<open>Suppressed Night_hours\<close> the night branch, \<open>Suppressed Cooldown_active\<close>
  the branch where \<open>should_notify\<close> is false, \<open>Notify text\<close> the branch that calls
  \<open>send_message text\<close>, once that call has returned, and \<open>NoChange\<close> the last branch.
  The cooldown is the default \<open>threshold\<close> of \<open>should_notify\<close>.
\<close>

datatype reason = Missing_data | Night_hours | Cooldown_active

datatype decision = Suppressed reason | Notify string | NoChange

definition default_threshold :: int where
  "default_threshold = 360"

definition analize_pressure_drop ::
  "env \<Rightarrow> datetime option \<Rightarrow> real option \<Rightarrow> datetime option \<Rightarrow> real option \<Rightarrow> world
     \<Rightarrow> (exn + decision) \<times> world" where
  "analize_pressure_drop e current_jst_time current_pressure jst_time_30min_ago
       pressure_30min_ago w =
     (case (current_jst_time, current_pressure) of
        (Some now, Some p) \<Rightarrow>
          (case (jst_time_30min_ago, pressure_30min_ago) of
             (Some ago, Some p_ago) \<Rightarrow>
               (let delta_pressure = float_sub e p p_ago
                in if is_night_hour now then (Inr (Suppressed Night_hours), w)
                   else if delta_pressure < - 1.0 then
                     (case should_notify now default_threshold w of
                        (Inl x, w') \<Rightarrow> (Inl x, w')
                      | (Inr True, w') \<Rightarrow>
                          (let text = drop_text p
                           in case send_message e text w' of
                                (Inl x, w'') \<Rightarrow> (Inl x, w'')
                              | (Inr u, w'') \<Rightarrow> (Inr (Notify text), w''))
                      | (Inr False, w') \<Rightarrow> (Inr (Suppressed Cooldown_active), w'))
                   else (Inr NoChange, w))
           | _ \<Rightarrow> (Inr (Suppressed Missing_data), w))
      | _ \<Rightarrow> (Inr (Suppressed Missing_data), w))"

subsection \<open>The same program over any library\<close>

text \<open>
  The read of \<open>should_notify\<close> calls \<open>str.strip\<close> and \<open>datetime.fromisoformat\<close>, and
  the loop of \<open>send_message\<close> calls \<open>str.strip\<close>. Which texts these two strip and
  parse depends on the version of Python and on the characters outside ASCII, which the
  functions \<open>strip\<close> and \<open>fromisoformat\<close> above do not cover. The functions below are
  \<open>should_notify\<close>, \<open>send_message\<close> and \<open>analize_pressure_drop\<close> once more, statement
  for statement, with the two library calls as parameters: what is proved of them holds
  whatever the library strips and parses. At \<open>modelled_library\<close> they are the functions
  above.
\<close>

record library =
  str_strip :: "string \<Rightarrow> string"
  datetime_fromisoformat :: "string \<Rightarrow> exn + datetime"

definition modelled_library :: library where
  "modelled_library = \<lparr>str_strip = strip, datetime_fromisoformat = fromisoformat\<rparr>"

definition read_last_notify_time_with :: "library \<Rightarrow> world \<Rightarrow> exn + datetime" where
  "read_last_notify_time_with lib w =
     (case open_read w of
        Inl e \<Rightarrow> Inl e
      | Inr text \<Rightarrow>
          (let last_notify_time_str = str_strip lib text
           in if last_notify_time_str = [] then Inl ValueError
              else datetime_fromisoformat lib last_notify_time_str))"

definition try_read_with :: "library \<Rightarrow> datetime \<Rightarrow> int \<Rightarrow> world \<Rightarrow> exn + bool option" where
  "try_read_with lib current_jst_time threshold w =
     (case read_last_notify_time_with lib w of
        Inl e \<Rightarrow> Inl e
      | Inr last_notify_time \<Rightarrow>
          (case datetime_sub current_jst_time last_notify_time of
             Inl e \<Rightarrow> Inl e
           | Inr elapsed \<Rightarrow>
               if elapsed < timedelta_minutes threshold then Inr (Some False)
               else Inr None))"

definition should_notify_with ::
  "library \<Rightarrow> datetime \<Rightarrow> int \<Rightarrow> world \<Rightarrow> (exn + bool) \<times> world" where
  "should_notify_with lib current_jst_time threshold w =
     (let w1 = w\<lparr>trace := trace w @ [Read_file]\<rparr>
      in case try_read_with lib current_jst_time threshold w of
           Inr (Some b) \<Rightarrow> (Inr b, w1)
         | Inr None \<Rightarrow> write_and_return current_jst_time w1
         | Inl e \<Rightarrow>
             if e = FileNotFoundError \<or> e = ValueError
             then write_and_return current_jst_time w1
             else (Inl e, w1))"

fun send_loop_with ::
  "library \<Rightarrow> env \<Rightarrow> string \<Rightarrow> string list \<Rightarrow> world \<Rightarrow> (exn + unit) \<times> world" where
  "send_loop_with lib e msg_text [] w = (Inr (), w)"
| "send_loop_with lib e msg_text (uid # uids) w =
     (let uid' = str_strip lib uid
      in if uid' \<noteq> []
         then (let w' = w\<lparr>trace := trace w @ [Posted uid' msg_text]\<rparr>
               in case requests_post e uid' msg_text of
                    None \<Rightarrow> (Inl RequestException, w')
                  | Some res \<Rightarrow> send_loop_with lib e msg_text uids w')
         else send_loop_with lib e msg_text uids w)"

definition send_message_with ::
  "library \<Rightarrow> env \<Rightarrow> string \<Rightarrow> world \<Rightarrow> (exn + unit) \<times> world" where
  "send_message_with lib e msg_text w = send_loop_with lib e msg_text (USER_IDS e) w"

definition analize_pressure_drop_with ::
  "library \<Rightarrow> env \<Rightarrow> datetime option \<Rightarrow> real option \<Rightarrow> datetime option \<Rightarrow> real option
     \<Rightarrow> world \<Rightarrow> (exn + decision) \<times> world" where
  "analize_pressure_drop_with lib e current_jst_time current_pressure jst_time_30min_ago
       pressure_30min_ago w =
     (case (current_jst_time, current_pressure) of
        (Some now, Some p) \<Rightarrow>
          (case (jst_time_30min_ago, pressure_30min_ago) of
             (Some ago, Some p_ago) \<Rightarrow>
               (let delta_pressure = float_sub e p p_ago
                in if is_night_hour now then (Inr (Suppressed Night_hours), w)
                   else if delta_pressure < - 1.0 then
                     (case should_notify_with lib now default_threshold w of
                        (Inl x, w') \<Rightarrow> (Inl x, w')
                      | (Inr True, w') \<Rightarrow>
                          (let text = drop_text p
                           in case send_message_with lib e text w' of
                                (Inl x, w'') \<Rightarrow> (Inl x, w'')
                              | (Inr u, w'') \<Rightarrow> (Inr (Notify text), w''))
                      | (Inr False, w') \<Rightarrow> (Inr (Suppressed Cooldown_active), w'))
                   else (Inr NoChange, w))
           | _ \<Rightarrow> (Inr (Suppressed Missing_data), w))
      | _ \<Rightarrow> (Inr (Suppressed Missing_data), w))"

subsection \<open>A sequence of evaluation cycles\<close>

text \<open>
  One cycle is one call of \<open>analize_pressure_drop\<close> on the samples of that run; the
  file is what the previous cycle left. \<open>posted_since w w'\<close> holds when a push request
  was issued between the two worlds, and \<open>notify_times\<close> lists, in order, the current
  times of the cycles in which one was.
\<close>

record cycle =
  cycle_env :: env
  current_jst_time :: "datetime option"
  current_pressure :: "real option"
  jst_time_30min_ago :: "datetime option"
  pressure_30min_ago :: "real option"

definition evaluation :: "cycle \<Rightarrow> world \<Rightarrow> (exn + decision) \<times> world" where
  "evaluation c w =
     analize_pressure_drop (cycle_env c) (current_jst_time c) (current_pressure c)
       (jst_time_30min_ago c) (pressure_30min_ago c) w"

fun is_posted :: "event \<Rightarrow> bool" where
  "is_posted (Posted uid text) = True"
| "is_posted _ = False"

definition new_events :: "world \<Rightarrow> world \<Rightarrow> event list" where
  "new_events w w' = drop (length (trace w)) (trace w')"

definition posted_since :: "world \<Rightarrow> world \<Rightarrow> bool" where
  "posted_since w w' = list_ex is_posted (new_events w w')"

fun notify_times :: "world \<Rightarrow> cycle list \<Rightarrow> datetime list" where
  "notify_times w [] = []"
| "notify_times w (c # cs) =
     (let w' = snd (evaluation c w)
      in (case current_jst_time c of
            Some now \<Rightarrow> if posted_since w w' then [now] else []
          | None \<Rightarrow> [])
         @ notify_times w' cs)"

text \<open>
  The instant that the text of the file stands for, whether or not the file can be opened.
\<close>

definition stored_instant :: "world \<Rightarrow> datetime option" where
  "stored_instant w =
     (case LAST_NOTIFY_FILE w of
        None \<Rightarrow> None
      | Some text \<Rightarrow>
          (case fromisoformat (strip text) of Inl e \<Rightarrow> None | Inr d \<Rightarrow> Some d))"

text \<open>
  \<open>apart later earlier\<close>: the two times can be subtracted and \<open>later\<close> is at least
  the cooldown after \<open>earlier\<close>. \<open>spaced ts\<close>: every time of the list is that far after
  every time before it in the list.
\<close>

definition apart :: "datetime \<Rightarrow> datetime \<Rightarrow> bool" where
  "apart later earlier =
     (case datetime_sub later earlier of
        Inl e \<Rightarrow> False
      | Inr elapsed \<Rightarrow> timedelta_minutes default_threshold \<le> elapsed)"

fun spaced :: "datetime list \<Rightarrow> bool" where
  "spaced [] = True"
| "spaced (t # ts) = ((\<forall>u\<in>set ts. apart u t) \<and> spaced ts)"

section \<open>Sample data\<close>

text \<open>
  The zone of the program is \<open>timezone(timedelta(hours=9))\<close>. The sample times are
  times of 17 May 2024 in that zone; the sample environment has two recipients and a blank
  entry between them, and subtracts exactly; the sample world has a file that can be read
  and written and an empty trace.
\<close>

definition jst :: int where
  "jst = 32400000000"

definition jst_time :: "nat \<Rightarrow> nat \<Rightarrow> datetime" where
  "jst_time hh mm =
     \<lparr>year = 2024, month = 5, day = 17, hour = hh, minute = mm, second = 0,
      microsecond = 0, tzinfo = Some jst\<rparr>"

definition answering :: "string \<Rightarrow> string \<Rightarrow> response option" where
  "answering uid text = Some (Response 200 ''{}'')"

definition failing :: "string \<Rightarrow> string \<Rightarrow> response option" where
  "failing uid text = None"

definition sample_env :: "(string \<Rightarrow> string \<Rightarrow> response option) \<Rightarrow> env" where
  "sample_env net = \<lparr>USER_IDS = [''U1'', '' '', ''U2''], float_sub = (\<lambda>a b. a - b),
                      requests_post = net\<rparr>"

definition sample_world :: "string option \<Rightarrow> world" where
  "sample_world file = \<lparr>LAST_NOTIFY_FILE = file, readable = True, writable = True, trace = []\<rparr>"

definition sample_cycle :: "datetime \<Rightarrow> datetime \<Rightarrow> cycle" where
  "sample_cycle now ago =
     \<lparr>cycle_env = sample_env answering, current_jst_time = Some now,
      current_pressure = Some 1000, jst_time_30min_ago = Some ago,
      pressure_30min_ago = Some 1002\<rparr>"

section \<open>The ISO text of a valid datetime parses back to it\<close>

lemma of_char_digit_char: "n < 10 \<Longrightarrow> (of_char (digit_char n) :: nat) = 48 + n"
  by (simp add: digit_char_def)

lemma is_digit_digit_char: "n < 10 \<Longrightarrow> is_digit (digit_char n)"
  by (simp add: is_digit_def of_char_digit_char)

lemma digit_val_digit_char: "n < 10 \<Longrightarrow> digit_val (digit_char n) = n"
  by (simp add: digit_val_def of_char_digit_char)

lemma int_of_digits_append:
  "int_of_digits (xs @ ys) acc =
     (case int_of_digits xs acc of None \<Rightarrow> None | Some a \<Rightarrow> int_of_digits ys a)"
  by (induction xs arbitrary: acc) auto

lemma int_of_digits_zero_padded:
  "int_of_digits (zero_padded k n) acc = Some (acc * 10 ^ k + n mod 10 ^ k)"
proof (induction k arbitrary: n acc)
  case 0
  then show ?case by simp
next
  case (Suc k)
  have "n div 10 mod 10 ^ k * 10 + n mod 10 = n mod (10 * 10 ^ k)"
    by (metis mod_mult2_eq mult.commute add.commute)
  then show ?case
    by (simp add: int_of_digits_append Suc is_digit_digit_char digit_val_digit_char algebra_simps)
qed

lemma length_zero_padded [simp]: "length (zero_padded k n) = k"
  by (induction k arbitrary: n) auto

lemma zero_padded_digits: "c \<in> set (zero_padded k n) \<Longrightarrow> is_digit c"
  by (induction k arbitrary: n) (auto simp: is_digit_digit_char)


lemma is_digit_not_sep:
  "is_digit c \<Longrightarrow> c \<noteq> CHR ''-'' \<and> c \<noteq> CHR ''+'' \<and> \<not> isspace c"
  by (auto simp: is_digit_def isspace_def)

lemma parse_isoformat_date_format:
  assumes "y < 10000" "m < 100" "d < 100"
  shows "parse_isoformat_date
           (zero_padded 4 y @ ''-'' @ zero_padded 2 m @ ''-'' @ zero_padded 2 d) = Some (y, m, d)"
proof -
  let ?s = "zero_padded 4 y @ ''-'' @ zero_padded 2 m @ ''-'' @ zero_padded 2 d"
  have y: "int_of_digits (take 4 ?s) 0 = Some y"
    using assms by (simp add: int_of_digits_zero_padded)
  have m: "int_of_digits (take 2 (drop 5 ?s)) 0 = Some m"
    using assms by (simp add: int_of_digits_zero_padded)
  have d: "int_of_digits (drop 8 ?s) 0 = Some d"
    using assms by (simp add: int_of_digits_zero_padded)
  have s4: "?s ! 4 = CHR ''-''" by (simp add: nth_append)
  have s7: "?s ! 7 = CHR ''-''" by (simp add: nth_append)
  have len: "length ?s = 10" by simp
  show ?thesis
    unfolding parse_isoformat_date_def using y m d s4 s7 len by simp
qed

lemma length_2_cases:
  assumes "length ab = 2"
  obtains a b where "ab = [a, b]"
  using assms by (cases ab; cases "tl ab") auto

lemma parse_hh_mm_ss_last:
  assumes "length ab = 2" "int_of_digits ab 0 = Some v"
  shows "parse_hh_mm_ss i ab = Some ([v], [])"
proof -
  obtain a b where ab: "ab = [a, b]" using assms(1) by (rule length_2_cases)
  show ?thesis using assms(2) unfolding ab by (simp del: int_of_digits.simps)
qed

lemma parse_hh_mm_ss_stop:
  assumes "length ab = 2" "int_of_digits ab 0 = Some v" "2 \<le> i"
  shows "parse_hh_mm_ss i (ab @ rest) = Some ([v], rest)"
proof -
  obtain a b where ab: "ab = [a, b]" using assms(1) by (rule length_2_cases)
  show ?thesis using assms(2,3) unfolding ab
    by (cases rest) (simp_all del: int_of_digits.simps)
qed

lemma parse_hh_mm_ss_step:
  assumes "length ab = 2" "int_of_digits ab 0 = Some v" "i < 2"
  shows "parse_hh_mm_ss i (ab @ CHR '':'' # rest) =
           (case parse_hh_mm_ss (Suc i) rest of
              None \<Rightarrow> None
            | Some (vs, r) \<Rightarrow> Some (v # vs, r))"
proof -
  obtain a b where ab: "ab = [a, b]" using assms(1) by (rule length_2_cases)
  show ?thesis using assms(2,3) unfolding ab by (simp del: int_of_digits.simps)
qed

lemma int_of_digits_two:
  assumes "n < 100"
  shows "int_of_digits (zero_padded 2 n) 0 = Some n"
  using assms by (simp add: int_of_digits_zero_padded)

lemma parse_hh_mm_ss_three:
  assumes "hh < 100" "mm < 100" "ss < 100"
  shows "parse_hh_mm_ss 0 (zero_padded 2 hh @ '':'' @ zero_padded 2 mm @ '':'' @
            zero_padded 2 ss @ rest) = Some ([hh, mm, ss], rest)"
proof -
  have 3: "parse_hh_mm_ss (Suc (Suc 0)) (zero_padded 2 ss @ rest) = Some ([ss], rest)"
    by (rule parse_hh_mm_ss_stop) (simp_all add: int_of_digits_two assms)
  have 2: "parse_hh_mm_ss (Suc 0) (zero_padded 2 mm @ CHR '':'' # zero_padded 2 ss @ rest)
             = Some ([mm, ss], rest)"
    using parse_hh_mm_ss_step[of "zero_padded 2 mm" mm "Suc 0" "zero_padded 2 ss @ rest"] 3
    by (simp add: int_of_digits_two assms)
  show ?thesis
    using parse_hh_mm_ss_step[of "zero_padded 2 hh" hh 0
        "zero_padded 2 mm @ CHR '':'' # zero_padded 2 ss @ rest"] 2
    by (simp add: int_of_digits_two assms)
qed

lemma parse_hh_mm_ss_two:
  assumes "hh < 100" "mm < 100"
  shows "parse_hh_mm_ss 0 (zero_padded 2 hh @ '':'' @ zero_padded 2 mm) = Some ([hh, mm], [])"
proof -
  have 2: "parse_hh_mm_ss (Suc 0) (zero_padded 2 mm) = Some ([mm], [])"
    by (rule parse_hh_mm_ss_last) (simp_all add: int_of_digits_two assms)
  show ?thesis
    using parse_hh_mm_ss_step[of "zero_padded 2 hh" hh 0 "zero_padded 2 mm"] 2
    by (simp add: int_of_digits_two assms)
qed

lemma parse_fraction_six:
  assumes "us < 1000000"
  shows "parse_fraction (''.'' @ zero_padded 6 us) = Some us"
  using assms by (simp add: parse_fraction_def int_of_digits_zero_padded)

lemma parse_hh_mm_ss_ff_format_time:
  assumes "hh < 100" "mm < 100" "ss < 100" "us < 1000000"
  shows "parse_hh_mm_ss_ff (format_time hh mm ss us) = Some (hh, mm, ss, us)"
proof (cases "us = 0")
  case True
  then show ?thesis
    using parse_hh_mm_ss_three[OF assms(1-3), of "[]"]
    by (simp add: parse_hh_mm_ss_ff_def format_time_def parse_fraction_def)
next
  case False
  then show ?thesis
    using parse_hh_mm_ss_three[OF assms(1-3), of "''.'' @ zero_padded 6 us"]
      parse_fraction_six[OF assms(4)]
    by (simp add: parse_hh_mm_ss_ff_def format_time_def)
qed

lemma split_first_found: "c \<notin> set a \<Longrightarrow> split_first c (a @ c # b) = Some (a, b)"
  by (induction a) auto

lemma split_first_none: "c \<notin> set s \<Longrightarrow> split_first c s = None"
  by (induction s) auto

lemma format_time_chars:
  assumes "c \<in> set (format_time hh mm ss us)"
  shows "c \<noteq> CHR ''-'' \<and> c \<noteq> CHR ''+''"
  using assms is_digit_not_sep[of c]
  by (auto simp: format_time_def dest!: zero_padded_digits split: if_splits)

lemma format_offset_body:
  "format_offset (Some off) = (if off < 0 then CHR ''-'' else CHR ''+'') # offset_body (nat \<bar>off\<bar>)"
  by (simp add: format_offset_def)

lemma offset_body_chars:
  assumes "c \<in> set (offset_body a)"
  shows "c \<noteq> CHR ''-'' \<and> c \<noteq> CHR ''+''"
  using assms is_digit_not_sep[of c]
  by (auto simp: offset_body_def Let_def dest!: zero_padded_digits split: if_splits)

lemma length_offset_body: "length (offset_body a) \<in> {5, 8, 15}"
  by (simp add: offset_body_def Let_def)

lemma parse_offset_body:
  assumes "a < 86400000000"
  shows "parse_hh_mm_ss_ff (offset_body a) =
           Some (a div 3600000000, a mod 3600000000 div 60000000,
                 a mod 3600000000 mod 60000000 div 1000000,
                 a mod 3600000000 mod 60000000 mod 1000000)"
proof -
  define hh where "hh = a div 3600000000"
  define r where "r = a mod 3600000000"
  define mm where "mm = r div 60000000"
  define s where "s = r mod 60000000"
  have hh: "hh < 100" using assms unfolding hh_def by simp
  have mm: "mm < 100" unfolding mm_def r_def by simp
  have sec: "s div 1000000 < 100" unfolding s_def by simp
  have us: "s mod 1000000 < 1000000" by simp
  show ?thesis
  proof (cases "s = 0")
    case True
    then show ?thesis
      using parse_hh_mm_ss_two[OF hh mm]
      by (simp add: offset_body_def Let_def parse_hh_mm_ss_ff_def parse_fraction_def
          hh_def[symmetric] r_def[symmetric] mm_def[symmetric] s_def[symmetric])
  next
    case False
    show ?thesis
    proof (cases "s mod 1000000 = 0")
      case True
      then show ?thesis
        using parse_hh_mm_ss_three[OF hh mm sec, of "[]"] False
        by (simp add: offset_body_def Let_def parse_hh_mm_ss_ff_def parse_fraction_def
            hh_def[symmetric] r_def[symmetric] mm_def[symmetric] s_def[symmetric])
    next
      case nz: False
      then show ?thesis
        using parse_hh_mm_ss_three[OF hh mm sec, of "''.'' @ zero_padded 6 (s mod 1000000)"]
          parse_fraction_six[OF us] False
        by (simp add: offset_body_def Let_def parse_hh_mm_ss_ff_def
            hh_def[symmetric] r_def[symmetric] mm_def[symmetric] s_def[symmetric])
    qed
  qed
qed

lemma offset_recompose:
  fixes a :: nat
  shows "int (a div 3600000000) * 3600000000 + int (a mod 3600000000 div 60000000) * 60000000
         + int (a mod 3600000000 mod 60000000 div 1000000) * 1000000
         + int (a mod 3600000000 mod 60000000 mod 1000000) = int a"
proof -
  have "a div 3600000000 * 3600000000 + (a mod 3600000000 div 60000000 * 60000000
         + (a mod 3600000000 mod 60000000 div 1000000 * 1000000
         + a mod 3600000000 mod 60000000 mod 1000000)) = a"
    by (simp only: div_mult_mod_eq)
  then have "int (a div 3600000000 * 3600000000 + (a mod 3600000000 div 60000000 * 60000000
         + (a mod 3600000000 mod 60000000 div 1000000 * 1000000
         + a mod 3600000000 mod 60000000 mod 1000000))) = int a"
    by simp
  then show ?thesis by (simp only: of_nat_add of_nat_mult of_nat_numeral add.assoc)
qed

lemma parse_offset_format:
  assumes "valid_offset off"
  shows "parse_offset (if off < 0 then - 1 else 1) (offset_body (nat \<bar>off\<bar>)) = Some off"
proof -
  define a where "a = nat \<bar>off\<bar>"
  define sg :: int where "sg = (if off < 0 then - 1 else 1)"
  define h where "h = a div 3600000000"
  define m where "m = a mod 3600000000 div 60000000"
  define s where "s = a mod 3600000000 mod 60000000 div 1000000"
  define u where "u = a mod 3600000000 mod 60000000 mod 1000000"
  have a: "a < 86400000000"
    using assms by (auto simp: valid_offset_def a_def)
  have len: "length (offset_body a) = 5 \<or> length (offset_body a) = 8
             \<or> length (offset_body a) = 15"
    using length_offset_body[of a] by simp
  have p: "parse_hh_mm_ss_ff (offset_body a) = Some (h, m, s, u)"
    unfolding h_def m_def s_def u_def by (rule parse_offset_body[OF a])
  have "int h * 3600000000 + int m * 60000000 + int s * 1000000 + int u = int a"
    unfolding h_def m_def s_def u_def by (rule offset_recompose)
  moreover have "sg * int a = off" by (auto simp: sg_def a_def)
  ultimately have td: "sg * (int h * 3600000000 + int m * 60000000 + int s * 1000000 + int u)
                       = off"
    by (simp only:)
  have "parse_offset sg (offset_body a) = Some off"
    unfolding parse_offset_def using len by (auto simp only: p td Let_def assms
        option.case prod.case if_True if_False insert_iff empty_iff simp_thms)
  then show ?thesis by (simp only: sg_def a_def)
qed

lemma length_format_time: "8 \<le> length (format_time hh mm ss us)"
  by (simp add: format_time_def)

lemma parse_isoformat_time_format:
  assumes "hh < 24" "mm < 60" "ss < 60" "us < 1000000"
    and "case tz of None \<Rightarrow> True | Some off \<Rightarrow> valid_offset off"
  shows "parse_isoformat_time (format_time hh mm ss us @ format_offset tz)
           = Some ((hh, mm, ss, us), tz)"
proof -
  let ?t = "format_time hh mm ss us"
  have t: "parse_hh_mm_ss_ff ?t = Some (hh, mm, ss, us)"
    using assms(1-4) by (intro parse_hh_mm_ss_ff_format_time) simp_all
  have minus: "CHR ''-'' \<notin> set ?t" and plus: "CHR ''+'' \<notin> set ?t"
    using format_time_chars[of _ hh mm ss us] by blast+
  have len: "\<not> length (?t @ x) < 2" for x
    using length_format_time[of hh mm ss us] by simp
  show ?thesis
  proof (cases tz)
    case None
    then show ?thesis
      using t split_first_none[OF minus] split_first_none[OF plus] len[of "[]"]
      by (simp add: parse_isoformat_time_def format_offset_def)
  next
    case (Some off)
    then have v: "valid_offset off" using assms(5) by simp
    let ?b = "offset_body (nat \<bar>off\<bar>)"
    show ?thesis
    proof (cases "off < 0")
      case True
      have "split_first CHR ''-'' (?t @ CHR ''-'' # ?b) = Some (?t, ?b)"
        by (rule split_first_found[OF minus])
      moreover have "parse_offset (- 1) ?b = Some off"
        using parse_offset_format[OF v] True by simp
      ultimately show ?thesis
        using t len[of "CHR ''-'' # ?b"] True Some
        by (simp add: parse_isoformat_time_def format_offset_body)
    next
      case False
      have "CHR ''-'' \<notin> set (?t @ CHR ''+'' # ?b)"
        using minus offset_body_chars[of "CHR ''-''" "nat \<bar>off\<bar>"] by auto
      then have "split_first CHR ''-'' (?t @ CHR ''+'' # ?b) = None"
        by (rule split_first_none)
      moreover have "split_first CHR ''+'' (?t @ CHR ''+'' # ?b) = Some (?t, ?b)"
        by (rule split_first_found[OF plus])
      moreover have "parse_offset 1 ?b = Some off"
        using parse_offset_format[OF v] False by simp
      ultimately show ?thesis
        using t len[of "CHR ''+'' # ?b"] False Some
        by (simp add: parse_isoformat_time_def format_offset_body)
    qed
  qed
qed

lemma days_in_month_le:
  assumes "m \<le> 12"
  shows "days_in_month y m \<le> 31"
proof -
  let ?L = "[0, 31, 28, 31, 30, 31, 30, 31, 31, 30, 31, 30, 31] :: nat list"
  have "\<forall>x\<in>set ?L. x \<le> 31" by simp
  moreover have "?L ! m \<in> set ?L" using assms by (intro nth_mem) simp
  ultimately have "?L ! m \<le> 31" by blast
  then show ?thesis by (simp add: days_in_month_def)
qed

lemma fromisoformat_isoformat:
  assumes "valid_datetime d"
  shows "fromisoformat (isoformat d) = Inr d"
proof -
  let ?date = "zero_padded 4 (year d) @ ''-'' @ zero_padded 2 (month d) @ ''-'' @
               zero_padded 2 (day d)"
  let ?time = "format_time (hour d) (minute d) (second d) (microsecond d) @
               format_offset (tzinfo d)"
  have iso: "isoformat d = ?date @ ''T'' @ ?time"
    by (simp add: isoformat_def)
  have ld: "length ?date = 10" by simp
  have tk: "take 10 (isoformat d) = ?date"
    unfolding iso using ld by (simp del: length_append append_assoc)
  have dr: "drop 11 (isoformat d) = ?time"
    unfolding iso by simp
  have day: "day d < 100"
    using assms days_in_month_le[of "month d" "year d"] by (auto simp: valid_datetime_def)
  have date: "parse_isoformat_date ?date = Some (year d, month d, day d)"
    using assms day by (intro parse_isoformat_date_format) (auto simp: valid_datetime_def)
  have time: "parse_isoformat_time ?time =
                Some ((hour d, minute d, second d, microsecond d), tzinfo d)"
    using assms by (intro parse_isoformat_time_format) (auto simp: valid_datetime_def)
  have long: "\<not> length (isoformat d) \<le> 10"
    unfolding iso by simp
  have new: "new_datetime (year d) (month d) (day d) (hour d) (minute d) (second d)
               (microsecond d) (tzinfo d) = Inr d"
    using assms by (cases d) (simp add: new_datetime_def)
  show ?thesis
    unfolding fromisoformat_def tk dr using date time long new
    by (simp only: Let_def option.case prod.case if_False)
qed

section \<open>The ISO text is not changed by strip\<close>

lemma strip_unchanged:
  assumes "s \<noteq> []" "\<not> isspace (hd s)" "\<not> isspace (last s)"
  shows "strip s = s"
proof -
  have front: "dropWhile isspace s = s"
    using assms(1,2) by (cases s) auto
  obtain ys y where s: "s = ys @ [y]"
    using assms(1) by (cases s rule: rev_cases) auto
  have "dropWhile isspace (rev s) = rev s"
    using assms(3) unfolding s by simp
  then show ?thesis
    by (simp add: strip_def front)
qed

lemma isoformat_chars:
  assumes "c \<in> set (isoformat d)"
  shows "\<not> isspace c"
proof -
  have lit: "\<not> isspace CHR ''-''" "\<not> isspace CHR ''+''" "\<not> isspace CHR '':''"
    "\<not> isspace CHR ''.''" "\<not> isspace CHR ''T''"
    by (simp_all add: isspace_def)
  have dig: "x \<in> set (zero_padded k n) \<Longrightarrow> \<not> isspace x" for x k n
    using zero_padded_digits[of x k n] is_digit_not_sep[of x] by blast
  have time: "x \<in> set (format_time hh mm ss us) \<Longrightarrow> \<not> isspace x" for x hh mm ss us
    using lit dig by (auto simp: format_time_def split: if_splits)
  have body: "x \<in> set (offset_body a) \<Longrightarrow> \<not> isspace x" for x a
    using lit dig by (auto simp: offset_body_def Let_def split: if_splits)
  have off: "x \<in> set (format_offset tz) \<Longrightarrow> \<not> isspace x" for x tz
    using lit body by (auto simp: format_offset_def split: option.splits if_splits)
  show ?thesis
    using assms lit dig time off by (auto simp: isoformat_def)
qed

lemma isoformat_not_empty: "isoformat d \<noteq> []"
  by (simp add: isoformat_def)

lemma strip_isoformat: "strip (isoformat d) = isoformat d"
proof (rule strip_unchanged)
  show ne: "isoformat d \<noteq> []" by (rule isoformat_not_empty)
  show "\<not> isspace (hd (isoformat d))"
    using ne by (intro isoformat_chars[of _ d]) simp
  show "\<not> isspace (last (isoformat d))"
    using ne by (intro isoformat_chars[of _ d]) simp
qed

lemma fromisoformat_empty: "fromisoformat [] = Inl ValueError"
  by (simp add: fromisoformat_def parse_isoformat_date_def)

section \<open>Elapsed time\<close>

lemma datetime_sub_error: "datetime_sub a b = Inl x \<Longrightarrow> x = TypeError"
  by (auto simp: datetime_sub_def Let_def split: option.splits)

lemma datetime_sub_trans:
  assumes "datetime_sub a b = Inr x" "datetime_sub b c = Inr y"
  shows "datetime_sub a c = Inr (x + y)"
  using assms by (auto simp: datetime_sub_def Let_def split: option.splits)

section \<open>What one call does to the world\<close>

lemma write_and_return_result:
  assumes "write_and_return now w = (r, w')"
  shows "(r = Inr True \<and> writable w \<and>
          w' = w\<lparr>LAST_NOTIFY_FILE := Some (isoformat now),
                 trace := trace w @ [Wrote_file (isoformat now)]\<rparr>)
         \<or> (r = Inl PermissionError \<and> \<not> writable w \<and> w' = w)"
  using assms by (auto simp: write_and_return_def open_write_def split: if_splits)

lemma should_notify_result:
  assumes "should_notify now thr w = (r, w')"
  shows "(r = Inr True \<and> writable w \<and>
          w' = w\<lparr>LAST_NOTIFY_FILE := Some (isoformat now),
                 trace := trace w @ [Read_file, Wrote_file (isoformat now)]\<rparr>)
         \<or> (r \<noteq> Inr True \<and> w' = w\<lparr>trace := trace w @ [Read_file]\<rparr>)"
proof -
  let ?w1 = "w\<lparr>trace := trace w @ [Read_file]\<rparr>"
  have wr: "write_and_return now ?w1 = (r, w') \<Longrightarrow> ?thesis"
    by (drule write_and_return_result) auto
  show ?thesis
  proof (cases "try_read now thr w")
    case (Inl x)
    then show ?thesis
      using assms wr by (auto simp: should_notify_def Let_def split: if_splits)
  next
    case (Inr b)
    then show ?thesis
    proof (cases b)
      case None
      then show ?thesis using assms wr Inr by (simp add: should_notify_def Let_def)
    next
      case (Some v)
      have "v = False"
        using Inr Some
        by (auto simp: try_read_def Let_def split: sum.splits if_splits)
      then show ?thesis using assms Inr Some by (auto simp: should_notify_def Let_def)
    qed
  qed
qed

lemma fromisoformat_error: "fromisoformat s = Inl x \<Longrightarrow> x = ValueError"
  by (auto simp: fromisoformat_def new_datetime_def Let_def
      split: option.splits if_splits prod.splits)

lemma read_last_notify_time_stored:
  assumes "stored_instant w = Some prev"
  shows "read_last_notify_time w = (if readable w then Inr prev else Inl PermissionError)"
proof -
  obtain s where f: "LAST_NOTIFY_FILE w = Some s"
    and p: "fromisoformat (strip s) = Inr prev"
    using assms by (auto simp: stored_instant_def split: option.splits sum.splits)
  have ne: "strip s \<noteq> []"
    using p fromisoformat_empty by auto
  show ?thesis
    using f p ne by (simp add: read_last_notify_time_def open_read_def)
qed

lemma try_read_known:
  assumes "read_last_notify_time w = Inr prev"
  shows "try_read now thr w =
           (case datetime_sub now prev of
              Inl x \<Rightarrow> Inl TypeError
            | Inr elapsed \<Rightarrow>
                if elapsed < timedelta_minutes thr then Inr (Some False) else Inr None)"
  using assms datetime_sub_error[of now prev]
  by (auto simp: try_read_def split: sum.splits)

lemma should_notify_True_elapsed:
  assumes "should_notify now thr w = (Inr True, w')" "stored_instant w = Some prev"
  shows "\<exists>elapsed. datetime_sub now prev = Inr elapsed \<and> timedelta_minutes thr \<le> elapsed"
proof (cases "readable w")
  case True
  then have "read_last_notify_time w = Inr prev"
    using read_last_notify_time_stored[OF assms(2)] by simp
  then show ?thesis
    using assms(1) unfolding should_notify_def
    by (auto simp: try_read_known Let_def split: if_splits sum.splits)
next
  case False
  then have "try_read now thr w = Inl PermissionError"
    using read_last_notify_time_stored[OF assms(2)] by (simp add: try_read_def)
  then show ?thesis
    using assms(1) by (simp add: should_notify_def Let_def)
qed

lemma send_loop_result:
  assumes "send_loop e msg uids w = (r, w')"
  shows "\<exists>es. w' = w\<lparr>trace := trace w @ es\<rparr> \<and> (\<forall>x\<in>set es. is_posted x)"
  using assms
proof (induction uids arbitrary: w)
  case Nil
  then have "w' = w\<lparr>trace := trace w @ []\<rparr>" by simp
  then show ?case by (intro exI[of _ "[]"]) simp
next
  case (Cons uid uids)
  show ?case
  proof (cases "strip uid = []")
    case True
    then show ?thesis using Cons by simp
  next
    case False
    let ?w1 = "w\<lparr>trace := trace w @ [Posted (strip uid) msg]\<rparr>"
    show ?thesis
    proof (cases "requests_post e (strip uid) msg")
      case None
      then have "w' = w\<lparr>trace := trace w @ [Posted (strip uid) msg]\<rparr>"
        using Cons.prems False by (simp add: Let_def)
      then show ?thesis by (intro exI[of _ "[Posted (strip uid) msg]"]) simp
    next
      case (Some res)
      then have "send_loop e msg uids ?w1 = (r, w')"
        using Cons.prems False by (simp add: Let_def)
      then obtain es where "w' = ?w1\<lparr>trace := trace ?w1 @ es\<rparr>" "\<forall>x\<in>set es. is_posted x"
        using Cons.IH by blast
      then show ?thesis
        by (intro exI[of _ "Posted (strip uid) msg # es"]) simp
    qed
  qed
qed


section \<open>What one evaluation does\<close>

lemma analize_present:
  "analize_pressure_drop e (Some now) (Some p) (Some ago) (Some p_ago) w =
     (if is_night_hour now then (Inr (Suppressed Night_hours), w)
      else if float_sub e p p_ago < - 1 then
        (case should_notify now default_threshold w of
           (Inl x, w') \<Rightarrow> (Inl x, w')
         | (Inr True, w') \<Rightarrow>
             (case send_message e (drop_text p) w' of
                (Inl x, w'') \<Rightarrow> (Inl x, w'')
              | (Inr u, w'') \<Rightarrow> (Inr (Notify (drop_text p)), w''))
         | (Inr False, w') \<Rightarrow> (Inr (Suppressed Cooldown_active), w'))
      else (Inr NoChange, w))"
  by (auto simp: analize_pressure_drop_def Let_def split: prod.splits sum.splits bool.splits)

lemma analize_absent:
  assumes "now = None \<or> p = None \<or> ago = None \<or> p_ago = None"
  shows "analize_pressure_drop e now p ago p_ago w = (Inr (Suppressed Missing_data), w)"
  using assms by (auto simp: analize_pressure_drop_def split: option.splits)

lemma send_message_result:
  assumes "send_message e msg w = (r, w')"
  shows "\<exists>es. w' = w\<lparr>trace := trace w @ es\<rparr> \<and> (\<forall>x\<in>set es. is_posted x)"
  using assms unfolding send_message_def by (rule send_loop_result)

lemma send_loop_answered:
  assumes "\<forall>uid\<in>set uids. requests_post e (strip uid) msg \<noteq> None"
  shows "\<exists>w'. send_loop e msg uids w = (Inr (), w')"
  using assms by (induction uids arbitrary: w) (auto simp: Let_def)

lemma send_message_answered:
  assumes "\<forall>uid\<in>set (USER_IDS e). requests_post e (strip uid) msg \<noteq> None"
  shows "\<exists>w'. send_message e msg w = (Inr (), w')"
  using assms unfolding send_message_def by (rule send_loop_answered)

lemma send_loop_error:
  "send_loop e msg uids w = (Inl x, w') \<Longrightarrow> x = RequestException"
  by (induction uids arbitrary: w) (auto simp: Let_def split: if_splits option.splits)

text \<open>
  An evaluation either leaves the world as it is, or only opens the file for reading, or
  opens it, writes the current time over it and then issues push requests and nothing
  else. The decision fixes which of the three it was.
\<close>

lemma analize_result:
  assumes "analize_pressure_drop e now p ago p_ago w = (r, w')"
  shows "(w' = w \<and> r \<in> {Inr (Suppressed Missing_data), Inr (Suppressed Night_hours), Inr NoChange})
       \<or> (w' = w\<lparr>trace := trace w @ [Read_file]\<rparr> \<and>
           (r = Inr (Suppressed Cooldown_active) \<or> (\<exists>x. r = Inl x \<and> x \<noteq> RequestException)))
       \<or> (\<exists>t q es. now = Some t \<and> p = Some q \<and> writable w \<and>
             w' = w\<lparr>LAST_NOTIFY_FILE := Some (isoformat t),
                    trace := trace w @ [Read_file, Wrote_file (isoformat t)] @ es\<rparr> \<and>
             (\<forall>x\<in>set es. is_posted x) \<and>
             (r = Inr (Notify (drop_text q)) \<or> r = Inl RequestException) \<and>
             should_notify t default_threshold w =
               (Inr True, w\<lparr>LAST_NOTIFY_FILE := Some (isoformat t),
                             trace := trace w @ [Read_file, Wrote_file (isoformat t)]\<rparr>))"
proof (cases "now = None \<or> p = None \<or> ago = None \<or> p_ago = None")
  case True
  then show ?thesis using assms analize_absent[OF True, of e w] by simp
next
  case False
  then obtain t q a q' where some: "now = Some t" "p = Some q" "ago = Some a" "p_ago = Some q'"
    by auto
  note run = assms[unfolded some analize_present]
  show ?thesis
  proof (cases "is_night_hour t \<or> \<not> float_sub e q q' < - 1")
    case True
    then show ?thesis using run by (auto split: if_splits)
  next
    case drop: False
    obtain b w1 where sn: "should_notify t default_threshold w = (b, w1)"
      by (cases "should_notify t default_threshold w")
    note shape = should_notify_result[OF sn]
    show ?thesis
    proof (cases "b = Inr True")
      case True
      then have w1: "w1 = w\<lparr>LAST_NOTIFY_FILE := Some (isoformat t),
                           trace := trace w @ [Read_file, Wrote_file (isoformat t)]\<rparr>"
        and wr: "writable w"
        using shape by auto
      obtain u w2 where sm: "send_message e (drop_text q) w1 = (u, w2)"
        by (cases "send_message e (drop_text q) w1")
      obtain es where es: "w2 = w1\<lparr>trace := trace w1 @ es\<rparr>" "\<forall>x\<in>set es. is_posted x"
        using send_message_result[OF sm] by blast
      have r: "r = Inr (Notify (drop_text q)) \<or> r = Inl RequestException" and w': "w' = w2"
        using run drop sn True sm send_loop_error[of e "drop_text q" "USER_IDS e" w1 _ w2]
        by (auto simp: send_message_def split: sum.splits)
      have "w' = w\<lparr>LAST_NOTIFY_FILE := Some (isoformat t),
                    trace := trace w @ [Read_file, Wrote_file (isoformat t)] @ es\<rparr>"
        unfolding w' es(1) w1 by simp
      then show ?thesis
        using some wr es(2) r sn True w1 by blast
    next
      case False
      then have w1: "w1 = w\<lparr>trace := trace w @ [Read_file]\<rparr>"
        using shape by auto
      have "w' = w1 \<and> (r = Inr (Suppressed Cooldown_active) \<or> (\<exists>x. r = Inl x \<and> x \<noteq> RequestException))"
      proof (cases b)
        case (Inl x)
        have "x \<noteq> RequestException"
          using sn Inl datetime_sub_error fromisoformat_error
          by (auto simp: should_notify_def write_and_return_def open_write_def try_read_def
              read_last_notify_time_def open_read_def Let_def
              split: sum.splits option.splits if_splits)
        then show ?thesis using run drop sn Inl by auto
      next
        case (Inr v)
        then have "v = False" using False by auto
        then show ?thesis using run drop sn Inr by auto
      qed
      then show ?thesis using w1 by blast
    qed
  qed
qed


section \<open>Reading back what was written\<close>

lemma read_isoformat:
  assumes "LAST_NOTIFY_FILE w = Some (isoformat t)" "readable w" "valid_datetime t"
  shows "read_last_notify_time w = Inr t"
  using assms
  by (simp add: read_last_notify_time_def open_read_def strip_isoformat isoformat_not_empty
      fromisoformat_isoformat)

lemma stored_isoformat:
  assumes "LAST_NOTIFY_FILE w = Some (isoformat t)" "valid_datetime t"
  shows "stored_instant w = Some t"
  using assms by (simp add: stored_instant_def strip_isoformat fromisoformat_isoformat)

lemma valid_jst_time:
  assumes "hh < 24" "mm < 60"
  shows "valid_datetime (jst_time hh mm)"
  using assms
  by (simp add: valid_datetime_def jst_time_def jst_def valid_offset_def days_in_month_def)

lemma should_notify_absent:
  assumes "read_last_notify_time w = Inl x" "x = FileNotFoundError \<or> x = ValueError"
  shows "should_notify now thr w
           = write_and_return now (w\<lparr>trace := trace w @ [Read_file]\<rparr>)"
  using assms by (auto simp: should_notify_def try_read_def Let_def)

lemma should_notify_known:
  assumes "read_last_notify_time w = Inr prev" "datetime_sub now prev = Inr elapsed"
  shows "should_notify now thr w =
           (if elapsed < timedelta_minutes thr
            then (Inr False, w\<lparr>trace := trace w @ [Read_file]\<rparr>)
            else write_and_return now (w\<lparr>trace := trace w @ [Read_file]\<rparr>))"
  using assms by (simp add: should_notify_def try_read_known Let_def)

lemma write_and_return_writable:
  assumes "writable w"
  shows "write_and_return now w =
           (Inr True, w\<lparr>LAST_NOTIFY_FILE := Some (isoformat now),
                         trace := trace w @ [Wrote_file (isoformat now)]\<rparr>)"
  using assms by (simp add: write_and_return_def open_write_def)

text \<open>
  When \<open>should_notify\<close> is true and every push request is answered, the decision is
  \<open>Notify\<close> and the file holds the ISO text of the current time.
\<close>

lemma analize_notifies:
  assumes "\<not> is_night_hour now" "float_sub e p p_ago < - 1"
    and "should_notify now default_threshold w = (Inr True, w1)"
    and "\<forall>uid\<in>set (USER_IDS e). requests_post e (strip uid) (drop_text p) \<noteq> None"
  shows "\<exists>w'. analize_pressure_drop e (Some now) (Some p) (Some ago) (Some p_ago) w
               = (Inr (Notify (drop_text p)), w')
             \<and> LAST_NOTIFY_FILE w' = Some (isoformat now)
             \<and> readable w' = readable w"
proof -
  obtain w2 where sm: "send_message e (drop_text p) w1 = (Inr (), w2)"
    using send_message_answered[OF assms(4)] by blast
  obtain es where es: "w2 = w1\<lparr>trace := trace w1 @ es\<rparr>"
    using send_message_result[OF sm] by blast
  have w1: "LAST_NOTIFY_FILE w1 = Some (isoformat now)" "readable w1 = readable w"
    using should_notify_result[OF assms(3)] by auto
  have "analize_pressure_drop e (Some now) (Some p) (Some ago) (Some p_ago) w
          = (Inr (Notify (drop_text p)), w2)"
    using assms(1-3) sm by (simp add: analize_present)
  then show ?thesis using w1 es by simp
qed


section \<open>The trace does not influence an evaluation\<close>

lemma new_events_append [simp]: "new_events w (w\<lparr>trace := trace w @ es\<rparr>) = es"
  by (simp add: new_events_def)

lemma new_events_append2 [simp]:
  "new_events w (w\<lparr>LAST_NOTIFY_FILE := f, trace := trace w @ es\<rparr>) = es"
  by (simp add: new_events_def)

lemma new_events_same [simp]: "new_events w w = []"
  by (simp add: new_events_def)

lemma send_loop_fst: "fst (send_loop e msg uids w) = fst (send_loop e msg uids v)"
  by (induction uids arbitrary: w v) (auto simp: Let_def split: option.splits)

lemma open_read_trace [simp]: "open_read (w\<lparr>trace := tr\<rparr>) = open_read w"
  by (auto simp: open_read_def split: option.splits)

lemma read_last_notify_time_trace [simp]:
  "read_last_notify_time (w\<lparr>trace := tr\<rparr>) = read_last_notify_time w"
  by (simp add: read_last_notify_time_def)

lemma try_read_trace [simp]: "try_read now thr (w\<lparr>trace := tr\<rparr>) = try_read now thr w"
  by (simp add: try_read_def)

lemma write_and_return_fst:
  "fst (write_and_return now w) = (if writable w then Inr True else Inl PermissionError)"
  by (simp add: write_and_return_def open_write_def)

lemma should_notify_fst:
  "fst (should_notify now thr w) =
     (case try_read now thr w of
        Inr (Some b) \<Rightarrow> Inr b
      | Inr None \<Rightarrow> if writable w then Inr True else Inl PermissionError
      | Inl x \<Rightarrow> if x = FileNotFoundError \<or> x = ValueError
                 then (if writable w then Inr True else Inl PermissionError)
                 else Inl x)"
  by (simp add: should_notify_def Let_def write_and_return_fst
      split: sum.splits option.splits)

lemma should_notify_trace:
  "fst (should_notify now thr (w\<lparr>trace := tr\<rparr>)) = fst (should_notify now thr w)"
  by (simp add: should_notify_fst)

lemma analize_fst:
  "fst (analize_pressure_drop e (Some now) (Some p) (Some ago) (Some p_ago) w) =
     (if is_night_hour now then Inr (Suppressed Night_hours)
      else if float_sub e p p_ago < - 1 then
        (case fst (should_notify now default_threshold w) of
           Inl x \<Rightarrow> Inl x
         | Inr True \<Rightarrow>
             (case fst (send_loop e (drop_text p) (USER_IDS e) v) of
                Inl x \<Rightarrow> Inl x
              | Inr u \<Rightarrow> Inr (Notify (drop_text p)))
         | Inr False \<Rightarrow> Inr (Suppressed Cooldown_active))
      else Inr NoChange)"
proof -
  obtain b w1 where sn: "should_notify now default_threshold w = (b, w1)"
    by (cases "should_notify now default_threshold w")
  obtain u w2 where sl: "send_loop e (drop_text p) (USER_IDS e) w1 = (u, w2)"
    by (cases "send_loop e (drop_text p) (USER_IDS e) w1")
  have "fst (send_loop e (drop_text p) (USER_IDS e) v) = u"
    using send_loop_fst[where e = e and msg = "drop_text p" and uids = "USER_IDS e"
        and w = v and v = w1] sl by simp
  then show ?thesis
    using sn sl
    by (auto simp: analize_present send_message_def split: sum.splits bool.splits)
qed

lemma analize_trace:
  "fst (analize_pressure_drop e now p ago p_ago (w\<lparr>trace := tr\<rparr>))
     = fst (analize_pressure_drop e now p ago p_ago w)"
proof (cases "now = None \<or> p = None \<or> ago = None \<or> p_ago = None")
  case True
  then show ?thesis by (simp add: analize_absent)
next
  case False
  then obtain t q a q' where some: "now = Some t" "p = Some q" "ago = Some a" "p_ago = Some q'"
    by auto
  show ?thesis
    unfolding some analize_fst[where v = w] should_notify_trace ..
qed


section \<open>A sequence of evaluations\<close>

lemma apart_trans:
  assumes "apart c b" "apart b a"
  shows "apart c a"
proof -
  obtain x where x: "datetime_sub c b = Inr x" "timedelta_minutes default_threshold \<le> x"
    using assms(1) by (auto simp: apart_def split: sum.splits)
  obtain y where y: "datetime_sub b a = Inr y" "timedelta_minutes default_threshold \<le> y"
    using assms(2) by (auto simp: apart_def split: sum.splits)
  have "0 \<le> timedelta_minutes default_threshold"
    by (simp add: timedelta_minutes_def default_threshold_def)
  then show ?thesis
    using datetime_sub_trans[OF x(1) y(1)] x(2) y(2) by (simp add: apart_def)
qed

lemma stored_instant_file:
  "LAST_NOTIFY_FILE w' = LAST_NOTIFY_FILE w \<Longrightarrow> stored_instant w' = stored_instant w"
  by (simp add: stored_instant_def)

text \<open>
  One evaluation either keeps the text of the file and sends nothing, or it leaves the
  ISO text of its current time in the file, and that time is the cooldown or more after
  the instant the file stood for.
\<close>

lemma evaluation_step:
  assumes "evaluation c w = (r, w')"
  shows "(LAST_NOTIFY_FILE w' = LAST_NOTIFY_FILE w \<and> \<not> posted_since w w')
       \<or> (\<exists>t. current_jst_time c = Some t \<and> LAST_NOTIFY_FILE w' = Some (isoformat t) \<and>
               (\<forall>prev. stored_instant w = Some prev \<longrightarrow> apart t prev))"
proof -
  note run = assms[unfolded evaluation_def]
  from analize_result[OF run] consider
    (same) "w' = w" | (read) "w' = w\<lparr>trace := trace w @ [Read_file]\<rparr>"
    | (wrote) t w1 where "current_jst_time c = Some t"
        "LAST_NOTIFY_FILE w' = Some (isoformat t)"
        "should_notify t default_threshold w = (Inr True, w1)"
    by auto
  then show ?thesis
  proof cases
    case same
    then show ?thesis by (simp add: posted_since_def)
  next
    case read
    then show ?thesis by (simp add: posted_since_def)
  next
    case wrote
    have "apart t prev" if "stored_instant w = Some prev" for prev
      using should_notify_True_elapsed[OF wrote(3) that] by (auto simp: apart_def)
    then show ?thesis using wrote(1,2) by blast
  qed
qed

lemma notify_times_spaced:
  assumes "\<forall>c\<in>set cs. \<forall>t. current_jst_time c = Some t \<longrightarrow> valid_datetime t"
  shows "spaced (notify_times w cs) \<and>
         (\<forall>prev. stored_instant w = Some prev \<longrightarrow> (\<forall>u\<in>set (notify_times w cs). apart u prev))"
  using assms
proof (induction cs arbitrary: w)
  case Nil
  then show ?case by simp
next
  case (Cons c cs)
  obtain r w' where ev: "evaluation c w = (r, w')"
    by (cases "evaluation c w")
  have valid_rest: "\<forall>c\<in>set cs. \<forall>t. current_jst_time c = Some t \<longrightarrow> valid_datetime t"
    using Cons.prems by simp
  note IH = Cons.IH[OF valid_rest, of w']
  let ?rest = "notify_times w' cs"
  from evaluation_step[OF ev] show ?case
  proof (elim disjE conjE exE)
    assume same: "LAST_NOTIFY_FILE w' = LAST_NOTIFY_FILE w" and quiet: "\<not> posted_since w w'"
    have "notify_times w (c # cs) = ?rest"
      using ev quiet by (simp split: option.splits)
    then show ?thesis
      using IH stored_instant_file[OF same] by simp
  next
    fix t
    assume now: "current_jst_time c = Some t"
      and written: "LAST_NOTIFY_FILE w' = Some (isoformat t)"
      and far: "\<forall>prev. stored_instant w = Some prev \<longrightarrow> apart t prev"
    have "valid_datetime t" using Cons.prems now by simp
    then have "stored_instant w' = Some t"
      using written by (intro stored_isoformat)
    then have after: "\<forall>u\<in>set ?rest. apart u t" and sp: "spaced ?rest"
      using IH by blast+
    have shape: "notify_times w (c # cs) = ?rest \<or> notify_times w (c # cs) = t # ?rest"
      using ev now by simp
    have "\<forall>u\<in>set ?rest. apart u prev" if "stored_instant w = Some prev" for prev
      using after far that apart_trans by blast
    then show ?thesis
      using shape after sp far by auto
  qed
qed

lemma spaced_nth:
  assumes "spaced ts" "i < j" "j < length ts"
  shows "apart (ts ! j) (ts ! i)"
  using assms
proof (induction ts arbitrary: i j)
  case Nil
  then show ?case by simp
next
  case (Cons t ts)
  obtain k where j: "j = Suc k" using Cons.prems(2) by (cases j) auto
  show ?case
  proof (cases i)
    case 0
    then show ?thesis using Cons.prems j by simp
  next
    case (Suc m)
    then show ?thesis using Cons.prems j Cons.IH[of m k] by simp
  qed
qed


section \<open>The program over any library\<close>

lemma modelled_library_calls:
  "str_strip modelled_library = strip" "datetime_fromisoformat modelled_library = fromisoformat"
  by (simp_all add: modelled_library_def)

lemma read_last_notify_time_modelled:
  "read_last_notify_time_with modelled_library w = read_last_notify_time w"
  unfolding read_last_notify_time_with_def read_last_notify_time_def modelled_library_calls ..

lemma should_notify_modelled:
  "should_notify_with modelled_library now thr w = should_notify now thr w"
  unfolding should_notify_with_def should_notify_def try_read_with_def try_read_def
    read_last_notify_time_modelled ..

lemma send_loop_modelled:
  "send_loop_with modelled_library e msg uids w = send_loop e msg uids w"
  by (induction uids arbitrary: w)
     (auto simp: modelled_library_calls Let_def split: option.splits)

lemma analize_pressure_drop_modelled:
  "analize_pressure_drop_with modelled_library e now p ago p_ago w
     = analize_pressure_drop e now p ago p_ago w"
  unfolding analize_pressure_drop_with_def analize_pressure_drop_def
    should_notify_modelled send_message_with_def send_message_def send_loop_modelled ..

lemma should_notify_with_absent:
  assumes "read_last_notify_time_with lib w = Inl x" "x = FileNotFoundError \<or> x = ValueError"
  shows "should_notify_with lib now thr w
           = write_and_return now (w\<lparr>trace := trace w @ [Read_file]\<rparr>)"
  using assms by (auto simp: should_notify_with_def try_read_with_def Let_def)

lemma send_loop_with_answered:
  assumes "\<forall>uid\<in>set uids. requests_post e (str_strip lib uid) msg \<noteq> None"
  shows "\<exists>w'. send_loop_with lib e msg uids w = (Inr (), w')
              \<and> LAST_NOTIFY_FILE w' = LAST_NOTIFY_FILE w"
  using assms
proof (induction uids arbitrary: w)
  case Nil
  then show ?case by simp
next
  case (Cons uid uids)
  then have rest: "\<forall>u\<in>set uids. requests_post e (str_strip lib u) msg \<noteq> None"
    and here: "requests_post e (str_strip lib uid) msg \<noteq> None"
    by simp_all
  show ?case
  proof (cases "str_strip lib uid = []")
    case True
    then show ?thesis using Cons.IH[OF rest, of w] by simp
  next
    case False
    let ?w1 = "w\<lparr>trace := trace w @ [Posted (str_strip lib uid) msg]\<rparr>"
    obtain res where "requests_post e (str_strip lib uid) msg = Some res"
      using here by auto
    then show ?thesis using Cons.IH[OF rest, of ?w1] False by (simp add: Let_def)
  qed
qed

lemma analize_with_present:
  "analize_pressure_drop_with lib e (Some now) (Some p) (Some ago) (Some p_ago) w =
     (if is_night_hour now then (Inr (Suppressed Night_hours), w)
      else if float_sub e p p_ago < - 1 then
        (case should_notify_with lib now default_threshold w of
           (Inl x, w') \<Rightarrow> (Inl x, w')
         | (Inr True, w') \<Rightarrow>
             (case send_message_with lib e (drop_text p) w' of
                (Inl x, w'') \<Rightarrow> (Inl x, w'')
              | (Inr u, w'') \<Rightarrow> (Inr (Notify (drop_text p)), w''))
         | (Inr False, w') \<Rightarrow> (Inr (Suppressed Cooldown_active), w'))
      else (Inr NoChange, w))"
  by (auto simp: analize_pressure_drop_with_def Let_def
      split: prod.splits sum.splits bool.splits)

section \<open>The claims\<close>

subsection \<open>Night hours\<close>

text \<open>
  Claim C3. When both samples are present and the hour of the current time, which is a
  time of the zone UTC+9, is in [0, 6), the decision is \<open>Suppressed Night_hours\<close>
  whatever the two pressures and whatever the world, and the world is left as it was: the
  file is not opened. Hour 0 is night, hour 6 is not.
\<close>

theorem night_hours_suppressed:
  "(hour now < 6 \<longrightarrow>
      analize_pressure_drop e (Some now) (Some p) (Some ago) (Some p_ago) w
        = (Inr (Suppressed Night_hours), w))
   \<and> is_night_hour (now\<lparr>hour := 0\<rparr>) \<and> \<not> is_night_hour (now\<lparr>hour := 6\<rparr>)"
  by (simp add: analize_present is_night_hour_def)

theorem night_hours_suppressed_witness:
  "hour (jst_time 3 0) < 6 \<and>
   analize_pressure_drop (sample_env answering) (Some (jst_time 3 0)) (Some 1000)
       (Some (jst_time 2 30)) (Some 1005) (sample_world None)
     = (Inr (Suppressed Night_hours), sample_world None)"
  using night_hours_suppressed[of "jst_time 3 0" "sample_env answering" 1000 "jst_time 2 30"
      1005 "sample_world None"]
  by (simp add: jst_time_def)

subsection \<open>Missing data\<close>

text \<open>
  Claim C5. When the time or the pressure of the current sample or of the sample of 30
  minutes before is absent, the decision is \<open>Suppressed Missing_data\<close> and the world is
  left as it was, whatever the environment and the world: no difference is computed, the
  hour is not looked at, the file is neither opened nor written.
\<close>

theorem missing_data_suppressed:
  assumes "now = None \<or> p = None \<or> ago = None \<or> p_ago = None"
  shows "analize_pressure_drop e now p ago p_ago w = (Inr (Suppressed Missing_data), w)
         \<and> new_events w (snd (analize_pressure_drop e now p ago p_ago w)) = []"
  using analize_absent[OF assms] by (simp add: new_events_def)

theorem missing_data_suppressed_witness:
  "analize_pressure_drop (sample_env failing) (Some (jst_time 3 0)) None
       (Some (jst_time 2 30)) (Some 1005)
       \<lparr>LAST_NOTIFY_FILE = Some ''x'', readable = False, writable = False, trace = []\<rparr>
     = (Inr (Suppressed Missing_data),
        \<lparr>LAST_NOTIFY_FILE = Some ''x'', readable = False, writable = False, trace = []\<rparr>)"
  using missing_data_suppressed[of "Some (jst_time 3 0)" None "Some (jst_time 2 30)"
      "Some 1005" "sample_env failing"
      "\<lparr>LAST_NOTIFY_FILE = Some ''x'', readable = False, writable = False, trace = []\<rparr>"]
  by simp

subsection \<open>No change\<close>

text \<open>
  Claim C2, as stated, fails: at 03:00 with equal pressures the difference is 0, which is
  not below -1.0, and the decision is \<open>Suppressed Night_hours\<close>, not \<open>NoChange\<close>.
\<close>

theorem no_change_at_night_counterexample:
  "- 1 \<le> float_sub (sample_env answering) 1000 1000 \<and>
   fst (analize_pressure_drop (sample_env answering) (Some (jst_time 3 0)) (Some 1000)
          (Some (jst_time 2 30)) (Some 1000) (sample_world None))
     = Inr (Suppressed Night_hours) \<and>
   fst (analize_pressure_drop (sample_env answering) (Some (jst_time 3 0)) (Some 1000)
          (Some (jst_time 2 30)) (Some 1000) (sample_world None))
     \<noteq> Inr NoChange"
  by (simp add: analize_present is_night_hour_def jst_time_def sample_env_def)

text \<open>
  Claim C2, amended. When both samples are present, the hour of the current time is not
  in [0, 6) and the difference of the pressures is greater than or equal to -1.0, also
  when it is -1.0 exactly, the decision is \<open>NoChange\<close> whatever the world, and the world
  is left as it was: the file is not opened.
\<close>

theorem no_change_by_day:
  assumes "\<not> is_night_hour now" "- 1 \<le> float_sub e p p_ago"
  shows "analize_pressure_drop e (Some now) (Some p) (Some ago) (Some p_ago) w
           = (Inr NoChange, w)"
  using assms by (simp add: analize_present)

theorem no_change_by_day_witness:
  "\<not> is_night_hour (jst_time 12 0) \<and>
   float_sub (sample_env answering) 1000 1001 = - 1 \<and>
   analize_pressure_drop (sample_env answering) (Some (jst_time 12 0)) (Some 1000)
       (Some (jst_time 11 30)) (Some 1001) (sample_world None)
     = (Inr NoChange, sample_world None)"
  using no_change_by_day[of "jst_time 12 0" "sample_env answering" 1000 1001
      "jst_time 11 30" "sample_world None"]
  by (simp add: is_night_hour_def jst_time_def sample_env_def)


subsection \<open>The cooldown window\<close>

text \<open>
  Claim C4. Take an evaluation with a difference below -1.0 at an hour that is not
  night, where reading the file gives a prior notification time \<open>prev\<close> and the current
  time minus \<open>prev\<close> is \<open>elapsed\<close>. When \<open>elapsed\<close> is strictly less than the
  cooldown of 360 minutes the decision is \<open>Suppressed Cooldown_active\<close> and the file
  was only read. When \<open>elapsed\<close> is at least the cooldown, the file can be written and
  the push requests are answered, the decision is \<open>Notify\<close> and the file holds the
  current time.
\<close>

theorem cooldown_window:
  assumes "\<not> is_night_hour now" "float_sub e p p_ago < - 1"
    and "read_last_notify_time w = Inr prev" "datetime_sub now prev = Inr elapsed"
  shows "(elapsed < timedelta_minutes 360 \<longrightarrow>
            analize_pressure_drop e (Some now) (Some p) (Some ago) (Some p_ago) w
              = (Inr (Suppressed Cooldown_active), w\<lparr>trace := trace w @ [Read_file]\<rparr>))
       \<and> (timedelta_minutes 360 \<le> elapsed \<and> writable w \<and>
            (\<forall>uid\<in>set (USER_IDS e). requests_post e (strip uid) (drop_text p) \<noteq> None) \<longrightarrow>
            (\<exists>w'. analize_pressure_drop e (Some now) (Some p) (Some ago) (Some p_ago) w
                     = (Inr (Notify (drop_text p)), w')
                   \<and> LAST_NOTIFY_FILE w' = Some (isoformat now)))"
proof (intro conjI impI)
  assume "elapsed < timedelta_minutes 360"
  then show "analize_pressure_drop e (Some now) (Some p) (Some ago) (Some p_ago) w
               = (Inr (Suppressed Cooldown_active), w\<lparr>trace := trace w @ [Read_file]\<rparr>)"
    using assms
    by (simp add: analize_present should_notify_known[OF assms(3,4)] default_threshold_def)
next
  assume a: "timedelta_minutes 360 \<le> elapsed \<and> writable w \<and>
             (\<forall>uid\<in>set (USER_IDS e). requests_post e (strip uid) (drop_text p) \<noteq> None)"
  then have "\<exists>w1. should_notify now default_threshold w = (Inr True, w1)"
    by (simp add: should_notify_known[OF assms(3,4)] default_threshold_def
        write_and_return_writable)
  then obtain w1 where sn: "should_notify now default_threshold w = (Inr True, w1)" by blast
  have net: "\<forall>uid\<in>set (USER_IDS e). requests_post e (strip uid) (drop_text p) \<noteq> None"
    using a by blast
  show "\<exists>w'. analize_pressure_drop e (Some now) (Some p) (Some ago) (Some p_ago) w
                     = (Inr (Notify (drop_text p)), w')
                   \<and> LAST_NOTIFY_FILE w' = Some (isoformat now)"
    using analize_notifies[OF assms(1,2) sn net, where ago = ago] by blast
qed

theorem cooldown_window_witness:
  "analize_pressure_drop (sample_env answering) (Some (jst_time 12 0)) (Some 1000)
       (Some (jst_time 11 30)) (Some 1002) (sample_world (Some (isoformat (jst_time 11 50))))
     = (Inr (Suppressed Cooldown_active),
        (sample_world (Some (isoformat (jst_time 11 50))))\<lparr>trace := [Read_file]\<rparr>)
   \<and> (\<exists>w'. analize_pressure_drop (sample_env answering) (Some (jst_time 12 0)) (Some 1000)
               (Some (jst_time 11 30)) (Some 1002)
               (sample_world (Some (isoformat (jst_time 5 59))))
             = (Inr (Notify (drop_text 1000)), w')
           \<and> LAST_NOTIFY_FILE w' = Some (isoformat (jst_time 12 0)))"
proof -
  have day: "\<not> is_night_hour (jst_time 12 0)"
    by (simp add: is_night_hour_def jst_time_def)
  have drop: "float_sub (sample_env answering) 1000 1002 < - 1"
    by (simp add: sample_env_def)
  have r10: "read_last_notify_time (sample_world (Some (isoformat (jst_time 11 50))))
               = Inr (jst_time 11 50)"
    by (rule read_isoformat) (simp_all add: sample_world_def valid_jst_time)
  have r361: "read_last_notify_time (sample_world (Some (isoformat (jst_time 5 59))))
               = Inr (jst_time 5 59)"
    by (rule read_isoformat) (simp_all add: sample_world_def valid_jst_time)
  have e10: "datetime_sub (jst_time 12 0) (jst_time 11 50) = Inr (timedelta_minutes 10)"
    by (simp add: datetime_sub_def jst_time_def wall_clock_def toordinal_def
        timedelta_minutes_def)
  have e361: "datetime_sub (jst_time 12 0) (jst_time 5 59) = Inr (timedelta_minutes 361)"
    by (simp add: datetime_sub_def jst_time_def wall_clock_def toordinal_def
        timedelta_minutes_def)
  have net: "\<forall>uid\<in>set (USER_IDS (sample_env answering)).
               requests_post (sample_env answering) (strip uid) (drop_text 1000) \<noteq> None"
    by (simp add: sample_env_def answering_def)
  have wr: "writable (sample_world (Some (isoformat (jst_time 5 59))))"
    by (simp add: sample_world_def)
  show ?thesis
    using cooldown_window[OF day drop r10 e10, of "jst_time 11 30"]
      cooldown_window[OF day drop r361 e361, of "jst_time 11 30"] net wr
    by (simp add: timedelta_minutes_def sample_world_def)
qed

subsection \<open>A record in the future\<close>

text \<open>
  Claim C10. When the instant read from the file lies after the current time, so that
  the current time minus it is negative, a difference below -1.0 at an hour that is not
  night is decided \<open>Suppressed Cooldown_active\<close>, and the file is only read.
\<close>

theorem future_record_suppresses:
  assumes "\<not> is_night_hour now" "float_sub e p p_ago < - 1"
    and "read_last_notify_time w = Inr prev" "datetime_sub now prev = Inr elapsed"
    and "elapsed < 0"
  shows "analize_pressure_drop e (Some now) (Some p) (Some ago) (Some p_ago) w
           = (Inr (Suppressed Cooldown_active), w\<lparr>trace := trace w @ [Read_file]\<rparr>)"
  using assms
  by (simp add: analize_present should_notify_known[OF assms(3,4)] default_threshold_def
      timedelta_minutes_def)

theorem future_record_suppresses_witness:
  "datetime_sub (jst_time 12 0) (jst_time 18 0) = Inr (timedelta_minutes (- 360)) \<and>
   analize_pressure_drop (sample_env answering) (Some (jst_time 12 0)) (Some 1000)
       (Some (jst_time 11 30)) (Some 1002) (sample_world (Some (isoformat (jst_time 18 0))))
     = (Inr (Suppressed Cooldown_active),
        (sample_world (Some (isoformat (jst_time 18 0))))\<lparr>trace := [Read_file]\<rparr>)"
proof -
  have day: "\<not> is_night_hour (jst_time 12 0)"
    by (simp add: is_night_hour_def jst_time_def)
  have drop: "float_sub (sample_env answering) 1000 1002 < - 1"
    by (simp add: sample_env_def)
  have r: "read_last_notify_time (sample_world (Some (isoformat (jst_time 18 0))))
             = Inr (jst_time 18 0)"
    by (rule read_isoformat) (simp_all add: sample_world_def valid_jst_time)
  have e: "datetime_sub (jst_time 12 0) (jst_time 18 0) = Inr (timedelta_minutes (- 360))"
    by (simp add: datetime_sub_def jst_time_def wall_clock_def toordinal_def
        timedelta_minutes_def)
  have neg: "timedelta_minutes (- 360) < 0"
    by (simp add: timedelta_minutes_def)
  show ?thesis
    using future_record_suppresses[OF day drop r e neg, of "jst_time 11 30"] e
    by (simp add: sample_world_def)
qed


subsection \<open>An absent or unreadable record\<close>

text \<open>
  Claim C6, as stated, fails: when the file exists and opening it for reading raises an
  error other than \<open>FileNotFoundError\<close>, the read does not yield an absent record. The
  error leaves \<open>should_notify\<close>, and a difference below -1.0 at noon ends in that error,
  not in \<open>Notify\<close>; nothing is written and nothing is sent.
\<close>

theorem read_error_counterexample:
  "\<not> is_night_hour (jst_time 12 0) \<and>
   float_sub (sample_env answering) 1000 1002 < - 1 \<and>
   read_last_notify_time
       \<lparr>LAST_NOTIFY_FILE = Some ''garbage'', readable = False, writable = True, trace = []\<rparr>
     = Inl PermissionError \<and>
   analize_pressure_drop (sample_env answering) (Some (jst_time 12 0)) (Some 1000)
       (Some (jst_time 11 30)) (Some 1002)
       \<lparr>LAST_NOTIFY_FILE = Some ''garbage'', readable = False, writable = True, trace = []\<rparr>
     = (Inl PermissionError,
        \<lparr>LAST_NOTIFY_FILE = Some ''garbage'', readable = False, writable = True,
         trace = [Read_file]\<rparr>)"
  by (simp add: analize_present is_night_hour_def jst_time_def sample_env_def
      should_notify_def try_read_def read_last_notify_time_def open_read_def)

text \<open>
  Claim C6, amended. Whatever \<open>str.strip\<close> and \<open>datetime.fromisoformat\<close> strip and
  parse: when the file does not exist, or its text is empty once stripped, or parsing the
  stripped text raises \<open>ValueError\<close>, the read raises \<open>FileNotFoundError\<close> or
  \<open>ValueError\<close>, which \<open>should_notify\<close> catches, so that \<open>should_notify\<close> does not
  return \<open>False\<close>, whatever the threshold: the record counts as absent and blocks
  nothing. Then a difference below -1.0 at an hour that is not night is decided
  \<open>Notify\<close>, in a world where the file can be written and the push requests are
  answered, and the file holds the current time afterwards.
\<close>

theorem absent_record_notifies:
  assumes "\<not> is_night_hour now" "float_sub e p p_ago < - 1"
    and "LAST_NOTIFY_FILE w = None \<or>
         (\<exists>s. LAST_NOTIFY_FILE w = Some s \<and> readable w \<and>
              (str_strip lib s = [] \<or>
               datetime_fromisoformat lib (str_strip lib s) = Inl ValueError))"
  shows "(read_last_notify_time_with lib w = Inl FileNotFoundError \<or>
          read_last_notify_time_with lib w = Inl ValueError)
       \<and> fst (should_notify_with lib now threshold w) \<noteq> Inr False
       \<and> (writable w \<and>
            (\<forall>uid\<in>set (USER_IDS e).
                requests_post e (str_strip lib uid) (drop_text p) \<noteq> None) \<longrightarrow>
            (\<exists>w'. analize_pressure_drop_with lib e (Some now) (Some p) (Some ago) (Some p_ago) w
                     = (Inr (Notify (drop_text p)), w')
                   \<and> LAST_NOTIFY_FILE w' = Some (isoformat now)))"
proof (intro conjI impI)
  show absent: "read_last_notify_time_with lib w = Inl FileNotFoundError \<or>
                read_last_notify_time_with lib w = Inl ValueError"
    using assms(3)
    by (auto simp: read_last_notify_time_with_def open_read_def Let_def split: if_splits)
  then obtain x where x: "read_last_notify_time_with lib w = Inl x"
    "x = FileNotFoundError \<or> x = ValueError"
    by blast
  let ?w1 = "w\<lparr>trace := trace w @ [Read_file]\<rparr>"
  have sn: "should_notify_with lib now thr w = write_and_return now ?w1" for thr
    by (rule should_notify_with_absent[OF x])
  show "fst (should_notify_with lib now threshold w) \<noteq> Inr False"
    by (simp add: sn write_and_return_fst)
  assume env: "writable w \<and>
               (\<forall>uid\<in>set (USER_IDS e).
                   requests_post e (str_strip lib uid) (drop_text p) \<noteq> None)"
  let ?w2 = "?w1\<lparr>LAST_NOTIFY_FILE := Some (isoformat now),
                 trace := trace ?w1 @ [Wrote_file (isoformat now)]\<rparr>"
  have wrote: "should_notify_with lib now default_threshold w = (Inr True, ?w2)"
    using env by (simp add: sn write_and_return_writable)
  obtain w' where sent: "send_message_with lib e (drop_text p) ?w2 = (Inr (), w')"
    and kept: "LAST_NOTIFY_FILE w' = LAST_NOTIFY_FILE ?w2"
    using send_loop_with_answered[of "USER_IDS e" e lib "drop_text p" ?w2] env
    unfolding send_message_with_def by blast
  have "analize_pressure_drop_with lib e (Some now) (Some p) (Some ago) (Some p_ago) w
          = (Inr (Notify (drop_text p)), w')"
    using assms(1,2) wrote sent by (simp add: analize_with_present)
  then show "\<exists>w'. analize_pressure_drop_with lib e (Some now) (Some p) (Some ago) (Some p_ago) w
                     = (Inr (Notify (drop_text p)), w')
                   \<and> LAST_NOTIFY_FILE w' = Some (isoformat now)"
    using kept by simp
qed

theorem absent_record_notifies_witness:
  "datetime_fromisoformat modelled_library (str_strip modelled_library ''garbage'')
     = Inl ValueError \<and>
   read_last_notify_time (sample_world (Some ''garbage'')) = Inl ValueError \<and>
   fst (should_notify (jst_time 12 0) 360 (sample_world (Some ''garbage''))) \<noteq> Inr False \<and>
   (\<exists>w'. analize_pressure_drop (sample_env answering) (Some (jst_time 12 0)) (Some 1000)
            (Some (jst_time 11 30)) (Some 1002) (sample_world (Some ''garbage''))
          = (Inr (Notify (drop_text 1000)), w')
        \<and> LAST_NOTIFY_FILE w' = Some (isoformat (jst_time 12 0)))"
proof -
  let ?w = "sample_world (Some ''garbage'')"
  have day: "\<not> is_night_hour (jst_time 12 0)"
    by (simp add: is_night_hour_def jst_time_def)
  have drop: "float_sub (sample_env answering) 1000 1002 < - 1"
    by (simp add: sample_env_def)
  have bad: "datetime_fromisoformat modelled_library (str_strip modelled_library ''garbage'')
               = Inl ValueError"
    by (simp add: modelled_library_calls strip_def isspace_def fromisoformat_def
        parse_isoformat_date_def)
  have stored: "LAST_NOTIFY_FILE ?w = None \<or>
                (\<exists>s. LAST_NOTIFY_FILE ?w = Some s \<and> readable ?w \<and>
                     (str_strip modelled_library s = [] \<or>
                      datetime_fromisoformat modelled_library (str_strip modelled_library s)
                        = Inl ValueError))"
    using bad by (simp add: sample_world_def)
  have env: "writable ?w \<and>
             (\<forall>uid\<in>set (USER_IDS (sample_env answering)).
                 requests_post (sample_env answering) (str_strip modelled_library uid)
                   (drop_text 1000) \<noteq> None)"
    by (simp add: sample_world_def sample_env_def answering_def)
  have not_missing: "read_last_notify_time ?w \<noteq> Inl FileNotFoundError"
    using bad
    by (simp add: read_last_notify_time_def open_read_def sample_world_def Let_def
        modelled_library_calls)
  show ?thesis
    using absent_record_notifies[OF day drop stored, of 360 "jst_time 11 30"] env bad
      not_missing
    unfolding read_last_notify_time_modelled should_notify_modelled
      analize_pressure_drop_modelled
    by blast
qed

subsection \<open>The first notification and the record it leaves\<close>

text \<open>
  Claim C8. Take an evaluation with a difference below -1.0 at an hour that is not
  night, with no file yet, in a world where the file can be written and read and the push
  requests are answered. The decision is \<open>Notify\<close>, the file then holds the ISO text of
  the current time, and reading it again gives exactly the current time.
\<close>

theorem first_notification_round_trip:
  assumes "valid_datetime now" "\<not> is_night_hour now" "float_sub e p p_ago < - 1"
    and "LAST_NOTIFY_FILE w = None" "readable w" "writable w"
    and "\<forall>uid\<in>set (USER_IDS e). requests_post e (strip uid) (drop_text p) \<noteq> None"
  shows "\<exists>w'. analize_pressure_drop e (Some now) (Some p) (Some ago) (Some p_ago) w
               = (Inr (Notify (drop_text p)), w')
             \<and> LAST_NOTIFY_FILE w' = Some (isoformat now)
             \<and> read_last_notify_time w' = Inr now"
proof -
  have x: "read_last_notify_time w = Inl FileNotFoundError"
    using assms(4) by (simp add: read_last_notify_time_def open_read_def)
  have "\<exists>w1. should_notify now default_threshold w = (Inr True, w1)"
    using assms(6) by (simp add: should_notify_absent[OF x] write_and_return_writable)
  then obtain w1 where sn: "should_notify now default_threshold w = (Inr True, w1)"
    by blast
  obtain w' where w':
    "analize_pressure_drop e (Some now) (Some p) (Some ago) (Some p_ago) w
       = (Inr (Notify (drop_text p)), w')"
    "LAST_NOTIFY_FILE w' = Some (isoformat now)" "readable w' = readable w"
    using analize_notifies[OF assms(2,3) sn assms(7), where ago = ago] by blast
  have "read_last_notify_time w' = Inr now"
    using w'(2,3) assms(1,5) by (intro read_isoformat) simp_all
  then show ?thesis using w'(1,2) by blast
qed

theorem first_notification_round_trip_witness:
  "\<exists>w'. analize_pressure_drop (sample_env answering) (Some (jst_time 12 0)) (Some 1000)
           (Some (jst_time 11 30)) (Some 1002) (sample_world None)
         = (Inr (Notify (drop_text 1000)), w')
       \<and> LAST_NOTIFY_FILE w' = Some (isoformat (jst_time 12 0))
       \<and> read_last_notify_time w' = Inr (jst_time 12 0)"
proof -
  have ok: "valid_datetime (jst_time 12 0)"
    by (simp add: valid_jst_time)
  have day: "\<not> is_night_hour (jst_time 12 0)"
    by (simp add: is_night_hour_def jst_time_def)
  have drop: "float_sub (sample_env answering) 1000 1002 < - 1"
    by (simp add: sample_env_def)
  have net: "\<forall>uid\<in>set (USER_IDS (sample_env answering)).
               requests_post (sample_env answering) (strip uid) (drop_text 1000) \<noteq> None"
    by (simp add: sample_env_def answering_def)
  show ?thesis
    by (rule first_notification_round_trip[OF ok day drop _ _ _ net])
       (simp_all add: sample_world_def)
qed


subsection \<open>The record is written before anything is sent\<close>

text \<open>
  Claim C7. In every evaluation whose decision is \<open>Notify\<close>, and in every evaluation
  that issued a push request at all, also one where the request raised and the decision
  was never returned, the events of the evaluation are: the file is opened for reading,
  the ISO text of the current time is written to it, and only then come the push
  requests. The file holds that text afterwards, whatever became of the requests.
\<close>

theorem record_written_before_send:
  assumes "analize_pressure_drop e now p ago p_ago w = (r, w')"
    and "(\<exists>text. r = Inr (Notify text)) \<or> posted_since w w'"
  shows "\<exists>t es. now = Some t \<and>
                new_events w w' = [Read_file, Wrote_file (isoformat t)] @ es \<and>
                (\<forall>x\<in>set es. is_posted x) \<and>
                LAST_NOTIFY_FILE w' = Some (isoformat t)"
  using analize_result[OF assms(1)] assms(2)
  by (elim disjE exE conjE) (auto simp: posted_since_def)

theorem record_written_before_send_witness:
  "analize_pressure_drop (sample_env failing) (Some (jst_time 12 0)) (Some 1000)
       (Some (jst_time 11 30)) (Some 1002) (sample_world None)
     = (Inl RequestException,
        \<lparr>LAST_NOTIFY_FILE = Some (isoformat (jst_time 12 0)), readable = True,
         writable = True,
         trace = [Read_file, Wrote_file (isoformat (jst_time 12 0)),
                  Posted ''U1'' (drop_text 1000)]\<rparr>)
   \<and> (\<exists>t es. Some (jst_time 12 0) = Some t \<and>
         new_events (sample_world None)
           \<lparr>LAST_NOTIFY_FILE = Some (isoformat (jst_time 12 0)), readable = True,
            writable = True,
            trace = [Read_file, Wrote_file (isoformat (jst_time 12 0)),
                     Posted ''U1'' (drop_text 1000)]\<rparr>
           = [Read_file, Wrote_file (isoformat t)] @ es \<and>
         (\<forall>x\<in>set es. is_posted x))"
proof -
  let ?w' = "\<lparr>LAST_NOTIFY_FILE = Some (isoformat (jst_time 12 0)), readable = True,
              writable = True,
              trace = [Read_file, Wrote_file (isoformat (jst_time 12 0)),
                       Posted ''U1'' (drop_text 1000)]\<rparr>"
  have day: "\<not> is_night_hour (jst_time 12 0)"
    by (simp add: is_night_hour_def jst_time_def)
  have u1: "strip ''U1'' = ''U1''"
    by (simp add: strip_def isspace_def)
  have run: "analize_pressure_drop (sample_env failing) (Some (jst_time 12 0)) (Some 1000)
               (Some (jst_time 11 30)) (Some 1002) (sample_world None)
             = (Inl RequestException, ?w')"
    using day
    by (simp add: analize_present sample_env_def sample_world_def failing_def
        should_notify_def try_read_def read_last_notify_time_def open_read_def
        write_and_return_def open_write_def send_message_def u1)
  have sent: "posted_since (sample_world None) ?w'"
    by (simp add: posted_since_def new_events_def sample_world_def)
  show ?thesis
    using record_written_before_send[OF run] sent run by blast
qed

subsection \<open>Evaluating twice\<close>

text \<open>
  Claim C9. When an evaluation has left the text of the file as it was, evaluating the
  same samples again in the world it left gives the same result. An evaluation whose
  result is a decision other than \<open>Notify\<close>, or an error that is not an error of the
  delivery, leaves the text of the file as it was: only the path that notifies writes.
\<close>

theorem evaluation_idempotent:
  assumes "analize_pressure_drop e now p ago p_ago w = (r, w')"
  shows "(LAST_NOTIFY_FILE w' = LAST_NOTIFY_FILE w \<longrightarrow>
            fst (analize_pressure_drop e now p ago p_ago w') = r)
       \<and> ((\<forall>text. r \<noteq> Inr (Notify text)) \<and> r \<noteq> Inl RequestException \<longrightarrow>
            LAST_NOTIFY_FILE w' = LAST_NOTIFY_FILE w)"
proof (intro conjI impI)
  assume same: "LAST_NOTIFY_FILE w' = LAST_NOTIFY_FILE w"
  have "\<exists>tr. w' = w\<lparr>trace := tr\<rparr>"
  proof -
    from analize_result[OF assms] consider
      "w' = w" | "w' = w\<lparr>trace := trace w @ [Read_file]\<rparr>"
      | t es where "w' = w\<lparr>LAST_NOTIFY_FILE := Some (isoformat t),
                            trace := trace w @ [Read_file, Wrote_file (isoformat t)] @ es\<rparr>"
      by blast
    then show ?thesis
    proof cases
      case 1
      then have "w' = w\<lparr>trace := trace w\<rparr>" by simp
      then show ?thesis ..
    next
      case 2
      then show ?thesis ..
    next
      case 3
      then have "LAST_NOTIFY_FILE w = Some (isoformat t)" using same by simp
      then have "w' = w\<lparr>trace := trace w @ [Read_file, Wrote_file (isoformat t)] @ es\<rparr>"
        using 3 by simp
      then show ?thesis ..
    qed
  qed
  then obtain tr where "w' = w\<lparr>trace := tr\<rparr>" ..
  then show "fst (analize_pressure_drop e now p ago p_ago w') = r"
    using analize_trace[where e = e and now = now and p = p and ago = ago
        and p_ago = p_ago and w = w and tr = tr] assms by simp
next
  assume "(\<forall>text. r \<noteq> Inr (Notify text)) \<and> r \<noteq> Inl RequestException"
  then show "LAST_NOTIFY_FILE w' = LAST_NOTIFY_FILE w"
    using analize_result[OF assms] by auto
qed

theorem evaluation_idempotent_witness:
  "analize_pressure_drop (sample_env answering) (Some (jst_time 12 0)) (Some 1000)
       (Some (jst_time 11 30)) (Some 1002) (sample_world (Some (isoformat (jst_time 11 50))))
     = (Inr (Suppressed Cooldown_active),
        (sample_world (Some (isoformat (jst_time 11 50))))\<lparr>trace := [Read_file]\<rparr>)
   \<and> fst (analize_pressure_drop (sample_env answering) (Some (jst_time 12 0)) (Some 1000)
            (Some (jst_time 11 30)) (Some 1002)
            ((sample_world (Some (isoformat (jst_time 11 50))))\<lparr>trace := [Read_file]\<rparr>))
     = Inr (Suppressed Cooldown_active)"
proof -
  let ?w = "sample_world (Some (isoformat (jst_time 11 50)))"
  have day: "\<not> is_night_hour (jst_time 12 0)"
    by (simp add: is_night_hour_def jst_time_def)
  have drop: "float_sub (sample_env answering) 1000 1002 < - 1"
    by (simp add: sample_env_def)
  have r10: "read_last_notify_time ?w = Inr (jst_time 11 50)"
    by (rule read_isoformat) (simp_all add: sample_world_def valid_jst_time)
  have e10: "datetime_sub (jst_time 12 0) (jst_time 11 50) = Inr (timedelta_minutes 10)"
    by (simp add: datetime_sub_def jst_time_def wall_clock_def toordinal_def
        timedelta_minutes_def)
  have run: "analize_pressure_drop (sample_env answering) (Some (jst_time 12 0)) (Some 1000)
               (Some (jst_time 11 30)) (Some 1002) ?w
             = (Inr (Suppressed Cooldown_active), ?w\<lparr>trace := [Read_file]\<rparr>)"
  proof -
    have sn: "should_notify (jst_time 12 0) default_threshold ?w
                = (Inr False, ?w\<lparr>trace := trace ?w @ [Read_file]\<rparr>)"
      by (simp add: should_notify_known[OF r10 e10] default_threshold_def
          timedelta_minutes_def)
    have tr: "trace ?w = []"
      by (simp add: sample_world_def)
    show ?thesis
      using day drop sn tr by (simp add: analize_present)
  qed
  show ?thesis
    using evaluation_idempotent[OF run] run by simp
qed


subsection \<open>One notification per cooldown window\<close>

text \<open>
  Claim C1. Run any sequence of evaluation cycles from any world, each cycle on the file
  the one before left. Take two cycles of the run in which a push request was issued, at
  current times \<open>t\<close> and, later in the run, \<open>t'\<close>. Then \<open>t' - t\<close> is defined and is at
  least the cooldown of 360 minutes: no notification is sent within the window that the
  last one opened.
\<close>

theorem one_notification_per_window:
  assumes "\<forall>c\<in>set cs. \<forall>t. current_jst_time c = Some t \<longrightarrow> valid_datetime t"
    and "i < j" "j < length (notify_times w cs)"
  shows "\<exists>elapsed. datetime_sub (notify_times w cs ! j) (notify_times w cs ! i) = Inr elapsed
                  \<and> timedelta_minutes 360 \<le> elapsed"
proof -
  have "spaced (notify_times w cs)"
    using notify_times_spaced[OF assms(1)] by blast
  then have "apart (notify_times w cs ! j) (notify_times w cs ! i)"
    using assms(2,3) by (rule spaced_nth)
  then show ?thesis
    by (auto simp: apart_def default_threshold_def split: sum.splits)
qed

theorem one_notification_per_window_witness:
  "notify_times (sample_world None)
     [sample_cycle (jst_time 12 0) (jst_time 11 30),
      sample_cycle (jst_time 12 10) (jst_time 11 40),
      sample_cycle (jst_time 18 1) (jst_time 17 31)]
     = [jst_time 12 0, jst_time 18 1]
   \<and> (\<exists>elapsed. datetime_sub (jst_time 18 1) (jst_time 12 0) = Inr elapsed
                 \<and> timedelta_minutes 360 \<le> elapsed)"
proof -
  let ?c1 = "sample_cycle (jst_time 12 0) (jst_time 11 30)"
  let ?c2 = "sample_cycle (jst_time 12 10) (jst_time 11 40)"
  let ?c3 = "sample_cycle (jst_time 18 1) (jst_time 17 31)"
  let ?m = "drop_text 1000"
  let ?w0 = "sample_world None"
  let ?w1 = "\<lparr>LAST_NOTIFY_FILE = Some (isoformat (jst_time 12 0)), readable = True,
              writable = True,
              trace = [Read_file, Wrote_file (isoformat (jst_time 12 0)),
                       Posted ''U1'' ?m, Posted ''U2'' ?m]\<rparr>"
  let ?w2 = "\<lparr>LAST_NOTIFY_FILE = Some (isoformat (jst_time 12 0)), readable = True,
              writable = True,
              trace = [Read_file, Wrote_file (isoformat (jst_time 12 0)),
                       Posted ''U1'' ?m, Posted ''U2'' ?m, Read_file]\<rparr>"
  let ?w3 = "\<lparr>LAST_NOTIFY_FILE = Some (isoformat (jst_time 18 1)), readable = True,
              writable = True,
              trace = [Read_file, Wrote_file (isoformat (jst_time 12 0)),
                       Posted ''U1'' ?m, Posted ''U2'' ?m, Read_file,
                       Read_file, Wrote_file (isoformat (jst_time 18 1)),
                       Posted ''U1'' ?m, Posted ''U2'' ?m]\<rparr>"
  have strips: "strip ''U1'' = ''U1''" "strip '' '' = []" "strip ''U2'' = ''U2''"
    by (simp_all add: strip_def isspace_def)
  have send: "send_message (sample_env answering) ?m v
                = (Inr (), v\<lparr>trace := trace v @ [Posted ''U1'' ?m, Posted ''U2'' ?m]\<rparr>)" for v
    by (simp add: send_message_def sample_env_def answering_def strips)
  have drop: "float_sub (sample_env answering) 1000 1002 < - 1"
    by (simp add: sample_env_def)
  have day: "\<not> is_night_hour (jst_time 12 0)" "\<not> is_night_hour (jst_time 12 10)"
    "\<not> is_night_hour (jst_time 18 1)"
    by (simp_all add: is_night_hour_def jst_time_def)
  have sn1: "should_notify (jst_time 12 0) default_threshold ?w0
               = (Inr True, ?w1\<lparr>trace := [Read_file, Wrote_file (isoformat (jst_time 12 0))]\<rparr>)"
    by (simp add: should_notify_def try_read_def read_last_notify_time_def open_read_def
        write_and_return_def open_write_def sample_world_def)
  have ev1: "evaluation ?c1 ?w0 = (Inr (Notify ?m), ?w1)"
    using day(1) drop sn1 by (simp add: evaluation_def sample_cycle_def analize_present send)
  have r1: "read_last_notify_time ?w1 = Inr (jst_time 12 0)"
    by (rule read_isoformat) (simp_all add: valid_jst_time)
  have e2: "datetime_sub (jst_time 12 10) (jst_time 12 0) = Inr (timedelta_minutes 10)"
    by (simp add: datetime_sub_def jst_time_def wall_clock_def toordinal_def
        timedelta_minutes_def)
  have sn2: "should_notify (jst_time 12 10) default_threshold ?w1 = (Inr False, ?w2)"
    by (subst should_notify_known[OF r1 e2])
       (simp add: default_threshold_def timedelta_minutes_def)
  have ev2: "evaluation ?c2 ?w1 = (Inr (Suppressed Cooldown_active), ?w2)"
    using day(2) drop sn2 by (simp add: evaluation_def sample_cycle_def analize_present)
  have r2: "read_last_notify_time ?w2 = Inr (jst_time 12 0)"
    by (rule read_isoformat) (simp_all add: valid_jst_time)
  have e3: "datetime_sub (jst_time 18 1) (jst_time 12 0) = Inr (timedelta_minutes 361)"
    by (simp add: datetime_sub_def jst_time_def wall_clock_def toordinal_def
        timedelta_minutes_def)
  have sn3: "should_notify (jst_time 18 1) default_threshold ?w2
               = (Inr True,
                  \<lparr>LAST_NOTIFY_FILE = Some (isoformat (jst_time 18 1)), readable = True,
                   writable = True,
                   trace = [Read_file, Wrote_file (isoformat (jst_time 12 0)),
                            Posted ''U1'' ?m, Posted ''U2'' ?m, Read_file,
                            Read_file, Wrote_file (isoformat (jst_time 18 1))]\<rparr>)"
    by (subst should_notify_known[OF r2 e3])
       (simp add: default_threshold_def timedelta_minutes_def write_and_return_writable)
  have ev3: "evaluation ?c3 ?w2 = (Inr (Notify ?m), ?w3)"
    using day(3) drop sn3 by (simp add: evaluation_def sample_cycle_def analize_present send)
  have p1: "posted_since ?w0 ?w1"
    by (simp add: posted_since_def new_events_def sample_world_def)
  have p2: "\<not> posted_since ?w1 ?w2"
    by (simp add: posted_since_def new_events_def)
  have p3: "posted_since ?w2 ?w3"
    by (simp add: posted_since_def new_events_def)
  have now: "current_jst_time (sample_cycle a b) = Some a" for a b
    by (simp add: sample_cycle_def)
  have times: "notify_times ?w0 [?c1, ?c2, ?c3] = [jst_time 12 0, jst_time 18 1]"
    using p1 p2 p3 ev1 ev2 ev3 by (simp add: now)
  have valid: "\<forall>c\<in>set [?c1, ?c2, ?c3]. \<forall>t. current_jst_time c = Some t \<longrightarrow> valid_datetime t"
    by (auto simp: now valid_jst_time)
  show ?thesis
    using one_notification_per_window[OF valid, of 0 1 ?w0] times by simp
qed


end
